theory Spec2Isabelle
  imports Main "HOL-Library.Word"
begin

section \<open>Errors\<close>

text \<open>
  A Go \<open>error\<close> value is modelled by its message together with the one classification the
  controller asks for, \<open>apierrors.IsNotFound\<close>.
\<close>

datatype error = NotFound string | Failure string

fun IsNotFound :: "error \<Rightarrow> bool" where
  "IsNotFound (NotFound _) = True"
| "IsNotFound (Failure _) = False"

fun Error :: "error \<Rightarrow> string" where
  "Error (NotFound s) = s"
| "Error (Failure s) = s"

text \<open>\<open>errors.Wrap(err, msg)\<close>: the message is prefixed, the cause is kept.\<close>

fun Wrap :: "error \<Rightarrow> string \<Rightarrow> error" where
  "Wrap (NotFound s) msg = NotFound (msg @ '': '' @ s)"
| "Wrap (Failure s) msg = Failure (msg @ '': '' @ s)"

section \<open>The result aggregator\<close>

text \<open>
  Modelled from the spec: the type \<open>results.Result\<close> of package \<open>pkg/util/results\<close> and its
  methods \<open>Merge\<close>, \<open>Add\<close> and \<open>IsEmpty\<close> are not among the source files. The spec describes
  a record partitioned into three scopes, global (\<open>Velero\<close>), cluster-scoped, and a mapping
  from namespace name to its list of items, each a message list; merging is list
  concatenation per scope; a worker failure is appended under a namespace scope (the spec
  names no namespace that \<open>Add\<close> treats apart, so the model treats every namespace string
  alike); a result is empty when its two lists and its namespace mapping are empty. The
  namespace mapping is kept as an association list; \<open>ns_append\<close> is the Go statement
  \<open>m[k] = append(m[k], v...)\<close>.
\<close>

record Result =
  Velero :: "string list"
  Cluster :: "string list"
  Namespaces :: "(string \<times> string list) list"

definition empty_Result :: Result where
  "empty_Result = \<lparr>Velero = [], Cluster = [], Namespaces = []\<rparr>"

fun ns_append :: "string \<Rightarrow> string list \<Rightarrow> (string \<times> string list) list
    \<Rightarrow> (string \<times> string list) list" where
  "ns_append k v [] = [(k, v)]"
| "ns_append k v ((k', v') # m) =
     (if k = k' then (k', v' @ v) # m else (k', v') # ns_append k v m)"

definition Merge :: "Result \<Rightarrow> Result \<Rightarrow> Result" where
  "Merge r other =
     \<lparr>Velero = Velero r @ Velero other,
      Cluster = Cluster r @ Cluster other,
      Namespaces = fold (\<lambda>(k, v) m. ns_append k v m) (Namespaces other) (Namespaces r)\<rparr>"

definition Add :: "string \<Rightarrow> error \<Rightarrow> Result \<Rightarrow> Result" where
  "Add ns e r = r\<lparr>Namespaces := ns_append ns [Error e] (Namespaces r)\<rparr>"

definition IsEmpty :: "Result \<Rightarrow> bool" where
  "IsEmpty r \<longleftrightarrow> Velero r = [] \<and> Cluster r = [] \<and> Namespaces r = []"

text \<open>
  The count the reconciler computes inline:
  \<open>len(x.Velero) + len(x.Cluster)\<close>, then \<open>+= len(w)\<close> for every namespace entry.
\<close>

fun count_namespaces :: "nat \<Rightarrow> (string \<times> string list) list \<Rightarrow> nat" where
  "count_namespaces cnt [] = cnt"
| "count_namespaces cnt ((k, w) # m) = count_namespaces (cnt + length w) m"

definition result_count :: "Result \<Rightarrow> nat" where
  "result_count x = count_namespaces (length (Velero x) + length (Cluster x)) (Namespaces x)"

section \<open>The data model\<close>

text \<open>
  \<open>velerov1api.RestorePhase\<close> is a string type; the controller names four of its constants.
  Every other value is \<open>OtherPhase\<close>.
\<close>

datatype RestorePhase =
    RestorePhaseFinalizing
  | RestorePhaseFinalizingPartiallyFailed
  | RestorePhasePartiallyFailed
  | RestorePhaseCompleted
  | OtherPhase string

text \<open>
  The fields of \<open>velerov1api.Restore\<close> the controller reads or writes. The counters are Go
  \<open>int\<close>s (64 bits): \<open>+=\<close> wraps.
\<close>

record Restore =
  Name :: string
  BackupName :: string
  ScheduleName :: string
  NamespaceMapping :: "(string \<times> string) list"
  Phase :: RestorePhase
  Warnings :: "64 word"
  Errors :: "64 word"
  CompletionTimestamp :: "nat option"

datatype BackupMethod = PodVolumeBackup | CSISnapshot | OtherMethod string

record PVInfo =
  ReclaimPolicy :: string
  Labels :: "(string \<times> string) list"

record VolumeInfo =
  PVCName :: string
  PVCNamespace :: string
  PVName :: string
  BackupMethod :: BackupMethod
  PVInfo :: "PVInfo option"

datatype ClaimPhase = ClaimBound | OtherClaimPhase string

datatype VolumePhase = VolumeBound | OtherVolumePhase string

record PersistentVolumeClaim =
  pvc_Name :: string
  pvc_Namespace :: string
  pvc_Phase :: ClaimPhase
  pvc_VolumeName :: string

record ObjectReference =
  ref_Name :: string
  ref_Namespace :: string

record PersistentVolume =
  pv_Name :: string
  pv_Labels :: "(string \<times> string) list"
  pv_ReclaimPolicy :: string
  pv_ClaimRef :: "ObjectReference option"
  pv_Phase :: VolumePhase

section \<open>Effects and the environment\<close>

text \<open>
  Every call that leaves the process and changes something, and every worker start, is
  recorded in a trace, in program order.
\<close>

datatype effect =
    PatchRestore Restore Restore
  | PutResults Restore "(string \<times> Result) list"
  | RegisterRestorePartialFailure string
  | RegisterRestoreSuccess string
  | CleanupClients
  | WorkerStarted nat VolumeInfo string
  | PatchPV PersistentVolume PersistentVolume

text \<open>
  What the cluster answers during one poll attempt of one worker: the PVC get (by namespace
  and name), the PV get (by name), and \<open>kubeutil.PatchResource\<close> on a PV (original, updated).
\<close>

record attempt =
  get_pvc :: "string \<Rightarrow> string \<Rightarrow> error + PersistentVolumeClaim"
  get_pv :: "string \<Rightarrow> error + PersistentVolume"
  patch_pv :: "PersistentVolume \<Rightarrow> PersistentVolume \<Rightarrow> error option"

text \<open>The methods of \<open>persistence.BackupStore\<close> the controller calls, and \<open>putResults\<close> on it.\<close>

record BackupStore =
  GetBackupVolumeInfos :: "string \<Rightarrow> error + VolumeInfo list"
  GetRestoredResourceList :: "string \<Rightarrow> error + (string \<times> string list) list"
  GetRestoreResults :: "string \<Rightarrow> error + (string \<times> Result) list"
  putResults :: "Restore \<Rightarrow> (string \<times> Result) list \<Rightarrow> error option"

record request =
  req_Namespace :: string
  req_Name :: string

definition req_String :: "request \<Rightarrow> string" where
  "req_String req = req_Namespace req @ ''/'' @ req_Name req"

text \<open>
  The reconciler's collaborators. \<open>fetchBackupInfoInternal\<close>, \<open>kubeutil.PatchResource\<close> and
  \<open>putResults\<close> are helpers outside the source files; only their outcome is a parameter here.
  \<open>fetchBackupInfoInternal\<close> yields the backup's storage location. \<open>crClient\<close> gives, for the
  worker of the volume at a position of the volume-info list, the cluster's answers at its
  first poll attempt and at the later attempts that fit before the deadline.
\<close>

record env =
  namespace :: string
  Get :: "request \<Rightarrow> error + Restore"
  fetchBackupInfoInternal :: "string \<Rightarrow> string \<Rightarrow> error + string"
  backupStoreGetter :: "string \<Rightarrow> error + BackupStore"
  PatchResource :: "Restore \<Rightarrow> Restore \<Rightarrow> error option"
  clock_Now :: nat
  crClient :: "nat \<Rightarrow> attempt \<times> attempt list"

section \<open>The inventory of restored PVCs\<close>

text \<open>
  \<open>regexp.MustCompile(`\(([^)]+)\)`).FindAllStringSubmatch(pvc, -1)\<close>, keeping of every
  match its capture group 1: the successive leftmost non-overlapping matches of an opening
  parenthesis, one or more characters other than a closing parenthesis, and a closing
  parenthesis. At an opening parenthesis the group is the text up to the next closing
  parenthesis; there is a match when that text is non-empty and the closing parenthesis
  exists, and the search goes on after the match. Otherwise the search goes on at the next
  character.
\<close>

function FindAllStringSubmatch :: "string \<Rightarrow> string list" where
  "FindAllStringSubmatch [] = []"
| "FindAllStringSubmatch (c # cs) =
     (if c = CHR ''(''
         \<and> takeWhile (\<lambda>x. x \<noteq> CHR '')'') cs \<noteq> []
         \<and> dropWhile (\<lambda>x. x \<noteq> CHR '')'') cs \<noteq> []
      then takeWhile (\<lambda>x. x \<noteq> CHR '')'') cs
             # FindAllStringSubmatch (tl (dropWhile (\<lambda>x. x \<noteq> CHR '')'') cs))
      else FindAllStringSubmatch cs)"
  by pat_completeness auto
termination
  by (relation "measure length") (auto simp: length_dropWhile_le le_imp_less_Suc less_Suc_eq_le
        intro: le_trans [OF diff_le_self])

text \<open>
  Modelled from the spec: the constant \<open>restore.ItemRestoreResultCreated\<close> of package
  \<open>pkg/restore\<close> is not among the source files; the spec gives the literal status tag
  \<open>created\<close>.
\<close>

definition ItemRestoreResultCreated :: string where
  "ItemRestoreResultCreated = ''created''"

text \<open>The loop over the entries, adding \<open>pvc[:len(pvc)-len("(created)")]\<close> to the set.\<close>

fun pvc_loop :: "string list \<Rightarrow> string set \<Rightarrow> string set" where
  "pvc_loop [] pvcList = pvcList"
| "pvc_loop (pvc # rest) pvcList =
     (let matches = FindAllStringSubmatch pvc in
      if length matches > 0 \<and> last matches = ItemRestoreResultCreated
      then pvc_loop rest (insert (take (length pvc - length ''(created)'') pvc) pvcList)
      else pvc_loop rest pvcList)"

definition getRestoredPVCFromRestoredResourceList ::
    "(string \<times> string list) list \<Rightarrow> string set" where
  "getRestoredPVCFromRestoredResourceList restoredResourceList =
     pvc_loop (case map_of restoredResourceList ''v1/PersistentVolumeClaim'' of
                 None \<Rightarrow> [] | Some l \<Rightarrow> l) {}"

section \<open>The patch decision\<close>

text \<open>The loop \<open>for k, v := range pvLabels\<close> of \<open>needPatch\<close>.\<close>

fun labels_loop :: "(string \<times> string) list \<Rightarrow> (string \<times> string) list \<Rightarrow> bool" where
  "labels_loop newPVLabels [] = False"
| "labels_loop newPVLabels ((k, v) # pvLabels) =
     (if map_of newPVLabels k = None then True
      else if map_of newPVLabels k \<noteq> Some v then True
      else labels_loop newPVLabels pvLabels)"

definition needPatch :: "PersistentVolume \<Rightarrow> PVInfo \<Rightarrow> bool" where
  "needPatch newPV pvInfo =
     (if pv_ReclaimPolicy newPV \<noteq> ReclaimPolicy pvInfo then True
      else labels_loop (pv_Labels newPV) (Labels pvInfo))"

section \<open>The per-volume worker\<close>

definition unexpected_PVC_error :: "ObjectReference \<Rightarrow> string \<Rightarrow> string \<Rightarrow> error" where
  "unexpected_PVC_error claimRef restoredNamespace pvcName =
     Failure (''PV was bound by unexpected PVC, unexpected PVC: '' @ ref_Namespace claimRef
       @ ''/'' @ ref_Name claimRef @ '', expected PVC: '' @ restoredNamespace @ ''/'' @ pvcName)"

text \<open>
  The condition function handed to the poll loop: its pair \<open>(done, err)\<close> and the patch calls
  it issued.
\<close>

definition poll_condition ::
    "VolumeInfo \<Rightarrow> PVInfo \<Rightarrow> string \<Rightarrow> attempt \<Rightarrow> (bool \<times> error option) \<times> effect list" where
  "poll_condition volInfo pvInfo restoredNamespace a =
     (case get_pvc a restoredNamespace (PVCName volInfo) of
        Inl err \<Rightarrow> if IsNotFound err then ((False, None), []) else ((False, Some err), [])
      | Inr pvc \<Rightarrow>
          if pvc_Phase pvc \<noteq> ClaimBound \<or> pvc_VolumeName pvc = [] then ((False, None), [])
          else
            (case get_pv a (pvc_VolumeName pvc) of
               Inl err \<Rightarrow> if IsNotFound err then ((False, None), []) else ((False, Some err), [])
             | Inr pv \<Rightarrow>
                 (case pv_ClaimRef pv of
                    None \<Rightarrow> ((False, None), [])
                  | Some claimRef \<Rightarrow>
                      if pv_Phase pv \<noteq> VolumeBound then ((False, None), [])
                      else if ref_Name claimRef \<noteq> pvc_Name pvc
                              \<or> ref_Namespace claimRef \<noteq> restoredNamespace
                      then ((False,
                             Some (unexpected_PVC_error claimRef restoredNamespace (pvc_Name pvc))),
                            [])
                      else if needPatch pv pvInfo then
                        (let updatedPV = pv\<lparr>pv_Labels := Labels pvInfo,
                                             pv_ReclaimPolicy := ReclaimPolicy pvInfo\<rparr> in
                         case patch_pv a pv updatedPV of
                           Some err \<Rightarrow> ((False, Some err), [PatchPV pv updatedPV])
                         | None \<Rightarrow> ((True, None), [PatchPV pv updatedPV]))
                      else ((True, None), []))))"

text \<open>
  \<open>wait.PollUntilContextTimeout\<close> with \<open>immediate = true\<close> (a library of the cluster API, not
  of this repository): the condition runs once at once, then once per interval; the loop
  ends with the condition's error as soon as there is one, with success as soon as the
  condition is done, and with the context's error when the deadline comes first. The
  attempts that fit before the deadline are those the environment lists.
\<close>

fun poll_loop :: "(attempt \<Rightarrow> (bool \<times> error option) \<times> effect list) \<Rightarrow> attempt list
    \<Rightarrow> error option \<times> effect list" where
  "poll_loop condition [] = (Some (Failure ''context deadline exceeded''), [])"
| "poll_loop condition (a # later) =
     (case condition a of
        ((ok, Some err), fx) \<Rightarrow> (Some err, fx)
      | ((True, None), fx) \<Rightarrow> (None, fx)
      | ((False, None), fx) \<Rightarrow>
          (case poll_loop condition later of (r, fx') \<Rightarrow> (r, fx @ fx')))"

definition PollUntilContextTimeout ::
    "(attempt \<Rightarrow> (bool \<times> error option) \<times> effect list) \<Rightarrow> attempt \<times> attempt list
    \<Rightarrow> error option \<times> effect list" where
  "PollUntilContextTimeout condition answers = poll_loop condition (fst answers # snd answers)"

definition patch_error :: "error \<Rightarrow> VolumeInfo \<Rightarrow> error" where
  "patch_error err volInfo =
     Failure (''fail to patch dynamic PV, err: '' @ Error err @ '', PVC: '' @ PVCName volInfo
       @ '', PV: '' @ PVName volInfo)"

text \<open>The body of the goroutine: the poll loop, then the error, if any, added to \<open>errs\<close>.\<close>

definition worker ::
    "VolumeInfo \<Rightarrow> PVInfo \<Rightarrow> string \<Rightarrow> attempt \<times> attempt list \<Rightarrow> Result \<Rightarrow> Result \<times> effect list" where
  "worker volInfo pvInfo restoredNamespace answers errs =
     (case PollUntilContextTimeout (poll_condition volInfo pvInfo restoredNamespace) answers of
        (Some err, fx) \<Rightarrow> (Add restoredNamespace (patch_error err volInfo) errs, fx)
      | (None, fx) \<Rightarrow> (errs, fx))"

section \<open>The volume-remediation task and the task executor\<close>

record finalizerContext =
  ctx_restore :: Restore
  ctx_crClient :: "nat \<Rightarrow> attempt \<times> attempt list"
  ctx_volumeInfo :: "VolumeInfo list"
  ctx_restoredPVCList :: "string set"

definition restored_namespace :: "Restore \<Rightarrow> VolumeInfo \<Rightarrow> string" where
  "restored_namespace restore volumeItem =
     (case map_of (NamespaceMapping restore) (PVCNamespace volumeItem) of
        Some remapped \<Rightarrow> remapped
      | None \<Rightarrow> PVCNamespace volumeItem)"

text \<open>
  One iteration of the loop over the volume-info list, for the volume at position \<open>i\<close>. The
  goroutines only meet at the semaphore, at the mutex around \<open>errs.Add\<close> and at the wait
  group; the model runs each worker to its end where it is started, which is one of the
  schedules and fixes the order of the entries inside a namespace, nothing else.
\<close>

definition volume_step ::
    "finalizerContext \<Rightarrow> nat \<Rightarrow> VolumeInfo \<Rightarrow> Result \<times> effect list \<Rightarrow> Result \<times> effect list" where
  "volume_step ctx i volumeItem st =
     (if BackupMethod volumeItem = PodVolumeBackup \<or> BackupMethod volumeItem = CSISnapshot
      then
        (case PVInfo volumeItem of
           None \<Rightarrow> st
         | Some pvInfo \<Rightarrow>
             (let restoredNamespace = restored_namespace (ctx_restore ctx) volumeItem;
                  pvcKey = restoredNamespace @ ''/'' @ PVCName volumeItem in
              if pvcKey \<notin> ctx_restoredPVCList ctx then st
              else
                (case worker volumeItem pvInfo restoredNamespace (ctx_crClient ctx i) (fst st) of
                   (errs, fx) \<Rightarrow>
                     (errs, snd st @ WorkerStarted i volumeItem restoredNamespace # fx))))
      else st)"

fun volume_loop ::
    "finalizerContext \<Rightarrow> nat \<Rightarrow> VolumeInfo list \<Rightarrow> Result \<times> effect list \<Rightarrow> Result \<times> effect list" where
  "volume_loop ctx i [] st = st"
| "volume_loop ctx i (volumeItem # rest) st =
     volume_loop ctx (Suc i) rest (volume_step ctx i volumeItem st)"

definition patchDynamicPVWithVolumeInfo :: "finalizerContext \<Rightarrow> Result \<times> effect list" where
  "patchDynamicPVWithVolumeInfo ctx = volume_loop ctx 0 (ctx_volumeInfo ctx) (empty_Result, [])"

definition execute :: "finalizerContext \<Rightarrow> (Result \<times> Result) \<times> effect list" where
  "execute ctx =
     (let warnings = empty_Result; errs = empty_Result in
      case patchDynamicPVWithVolumeInfo ctx of
        (pdpErrs, fx) \<Rightarrow> ((warnings, Merge errs pdpErrs), fx))"

section \<open>The reconciler\<close>

definition finishProcessing ::
    "env \<Rightarrow> RestorePhase \<Rightarrow> Restore \<Rightarrow> Restore \<Rightarrow> error option \<times> effect list" where
  "finishProcessing r restorePhase restore original =
     (if restorePhase = RestorePhasePartiallyFailed then
        (let restore' = restore\<lparr>Phase := RestorePhasePartiallyFailed,
                                CompletionTimestamp := Some (clock_Now r)\<rparr> in
         (PatchResource r original restore',
          [RegisterRestorePartialFailure (ScheduleName restore), PatchRestore original restore']))
      else
        (let restore' = restore\<lparr>Phase := RestorePhaseCompleted,
                                CompletionTimestamp := Some (clock_Now r)\<rparr> in
         (PatchResource r original restore',
          [RegisterRestoreSuccess (ScheduleName restore), PatchRestore original restore'])))"

text \<open>Indexing a Go map of results: a missing key gives the zero value.\<close>

definition lookup_Result :: "(string \<times> Result) list \<Rightarrow> string \<Rightarrow> Result" where
  "lookup_Result m k = (case map_of m k of None \<Rightarrow> empty_Result | Some x \<Rightarrow> x)"

definition updateResults ::
    "BackupStore \<Rightarrow> Restore \<Rightarrow> Result \<Rightarrow> Result \<Rightarrow> error option \<times> effect list" where
  "updateResults backupStore restore newWarnings newErrs =
     (case GetRestoreResults backupStore (Name restore) of
        Inl err \<Rightarrow> (Some (Wrap err ''error getting restore results''), [])
      | Inr originResults \<Rightarrow>
          (let warnings = Merge (lookup_Result originResults ''warnings'') newWarnings;
               errs = Merge (lookup_Result originResults ''errors'') newErrs;
               m = [(''warnings'', warnings), (''errors'', errs)] in
           case putResults backupStore restore m of
             Some err \<Rightarrow> (Some (Wrap err ''error putting restore results''), [PutResults restore m])
           | None \<Rightarrow> (None, [PutResults restore m])))"

text \<open>
  The part of \<open>Reconcile\<close> after the backup store is at hand: from the volume-info load to
  the final patch.
\<close>

definition finalize ::
    "env \<Rightarrow> BackupStore \<Rightarrow> Restore \<Rightarrow> Restore \<Rightarrow> error option \<times> effect list" where
  "finalize r backupStore restore original =
     (case GetBackupVolumeInfos backupStore (BackupName restore) of
        Inl err \<Rightarrow> (Some (Wrap err ''error getting volumeInfo''), [])
      | Inr volumeInfo \<Rightarrow>
          (case GetRestoredResourceList backupStore (Name restore) of
             Inl err \<Rightarrow> (Some (Wrap err ''error getting restoredResourceList''), [])
           | Inr restoredResourceList \<Rightarrow>
               (let restoredPVCList = getRestoredPVCFromRestoredResourceList restoredResourceList;
                    finalizerCtx = \<lparr>ctx_restore = restore, ctx_crClient = crClient r,
                                    ctx_volumeInfo = volumeInfo,
                                    ctx_restoredPVCList = restoredPVCList\<rparr> in
                case execute finalizerCtx of
                  ((warnings, errs), fx) \<Rightarrow>
                    (let warningCnt = result_count warnings;
                         errCnt = result_count errs;
                         restore1 = restore\<lparr>Warnings := Warnings restore + of_nat warningCnt,
                                            Errors := Errors restore + of_nat errCnt\<rparr>;
                         restore2 = (if \<not> IsEmpty errs
                                     then restore1\<lparr>Phase := RestorePhaseFinalizingPartiallyFailed\<rparr>
                                     else restore1);
                         (uerr, ufx) = (if warningCnt > 0 \<or> errCnt > 0
                                        then updateResults backupStore restore2 warnings errs
                                        else (None, [])) in
                     case uerr of
                       Some err \<Rightarrow> (Some (Wrap err ''error updating results''), fx @ ufx)
                     | None \<Rightarrow>
                         (let finalPhase =
                                (if Phase restore2 = RestorePhaseFinalizingPartiallyFailed
                                 then RestorePhasePartiallyFailed else RestorePhaseCompleted) in
                          case finishProcessing r finalPhase restore2 original of
                            (Some err, pfx) \<Rightarrow>
                              (Some (Wrap err ''error updating restore's final status''),
                               fx @ ufx @ pfx)
                          | (None, pfx) \<Rightarrow> (None, fx @ ufx @ pfx))))))"

text \<open>
  \<open>Reconcile\<close>: the returned error (\<open>None\<close> is success) and the trace. The deferred
  \<open>pluginManager.CleanupClients()\<close> closes the trace of every path that created the plugin
  manager.
\<close>

definition Reconcile :: "env \<Rightarrow> request \<Rightarrow> error option \<times> effect list" where
  "Reconcile r req =
     (case Get r req of
        Inl err \<Rightarrow>
          if IsNotFound err then (None, [])
          else (Some (Wrap err (''error getting restore '' @ req_String req)), [])
      | Inr original \<Rightarrow>
          (let restore = original in
           if Phase restore \<noteq> RestorePhaseFinalizing
              \<and> Phase restore \<noteq> RestorePhaseFinalizingPartiallyFailed
           then (None, [])
           else
             (case fetchBackupInfoInternal r (namespace r) (BackupName restore) of
                Inl err \<Rightarrow>
                  if IsNotFound err then
                    (case finishProcessing r RestorePhasePartiallyFailed restore original of
                       (Some err2, fx) \<Rightarrow>
                         (Some (Wrap err2 ''error updating restore's final status''), fx)
                     | (None, fx) \<Rightarrow> (None, fx))
                  else (Some (Wrap err ''error getting backup info''), [])
              | Inr location \<Rightarrow>
                  (case (case backupStoreGetter r location of
                           Inl err \<Rightarrow> (Some (Wrap err ''error getting backup store''), [])
                         | Inr backupStore \<Rightarrow> finalize r backupStore restore original) of
                     (res, fx) \<Rightarrow> (res, fx @ [CleanupClients])))))"

text \<open>
  The \<open>finalizerCtx\<close> that \<open>Reconcile\<close> builds and executes, for the calls that get that far:
  the restore is found in a finalizing phase, the backup is found, the backup store is
  obtained and both loads succeed. Every other call builds none.
\<close>

definition finalizerCtx :: "env \<Rightarrow> request \<Rightarrow> finalizerContext option" where
  "finalizerCtx r req =
     (case Get r req of
        Inl err \<Rightarrow> None
      | Inr original \<Rightarrow>
          if Phase original \<noteq> RestorePhaseFinalizing
             \<and> Phase original \<noteq> RestorePhaseFinalizingPartiallyFailed
          then None
          else
            (case fetchBackupInfoInternal r (namespace r) (BackupName original) of
               Inl err \<Rightarrow> None
             | Inr location \<Rightarrow>
                 (case backupStoreGetter r location of
                    Inl err \<Rightarrow> None
                  | Inr backupStore \<Rightarrow>
                      (case GetBackupVolumeInfos backupStore (BackupName original) of
                         Inl err \<Rightarrow> None
                       | Inr volumeInfo \<Rightarrow>
                           (case GetRestoredResourceList backupStore (Name original) of
                              Inl err \<Rightarrow> None
                            | Inr restoredResourceList \<Rightarrow>
                                Some \<lparr>ctx_restore = original, ctx_crClient = crClient r,
                                      ctx_volumeInfo = volumeInfo,
                                      ctx_restoredPVCList =
                                        getRestoredPVCFromRestoredResourceList
                                          restoredResourceList\<rparr>)))))"

section \<open>Example inputs\<close>

text \<open>
  A restore \<open>r1\<close> of backup \<open>b1\<close> that maps namespace \<open>ns1\<close> to \<open>ns2\<close>, one snapshot-backed
  volume of \<open>ns1/pvc-a\<close>, and the cluster objects a worker may meet.
\<close>

definition ex_restore :: Restore where
  "ex_restore =
     \<lparr>Name = ''r1'', BackupName = ''b1'', ScheduleName = ''daily'',
      NamespaceMapping = [(''ns1'', ''ns2'')], Phase = RestorePhaseFinalizing,
      Warnings = 2, Errors = 1, CompletionTimestamp = None\<rparr>"

definition ex_pvInfo :: PVInfo where
  "ex_pvInfo = \<lparr>ReclaimPolicy = ''Retain'', Labels = [(''app'', ''db'')]\<rparr>"

definition ex_volume :: VolumeInfo where
  "ex_volume =
     \<lparr>PVCName = ''pvc-a'', PVCNamespace = ''ns1'', PVName = ''pv-old'',
      BackupMethod = CSISnapshot, PVInfo = Some ex_pvInfo\<rparr>"

definition ex_pvc :: PersistentVolumeClaim where
  "ex_pvc =
     \<lparr>pvc_Name = ''pvc-a'', pvc_Namespace = ''ns2'', pvc_Phase = ClaimBound,
      pvc_VolumeName = ''pv-new''\<rparr>"

definition ex_pv :: PersistentVolume where
  "ex_pv =
     \<lparr>pv_Name = ''pv-new'', pv_Labels = [(''zone'', ''a'')], pv_ReclaimPolicy = ''Delete'',
      pv_ClaimRef = Some \<lparr>ref_Name = ''pvc-a'', ref_Namespace = ''ns2''\<rparr>,
      pv_Phase = VolumeBound\<rparr>"

definition ex_pv_other_claim :: PersistentVolume where
  "ex_pv_other_claim =
     ex_pv\<lparr>pv_ClaimRef := Some \<lparr>ref_Name = ''pvc-z'', ref_Namespace = ''ns2''\<rparr>\<rparr>"

definition ex_attempt_pending :: attempt where
  "ex_attempt_pending =
     \<lparr>get_pvc = (\<lambda>ns n. Inl (NotFound ''persistentvolumeclaims not found'')),
      get_pv = (\<lambda>n. Inl (NotFound ''persistentvolumes not found'')),
      patch_pv = (\<lambda>pv updatedPV. None)\<rparr>"

definition ex_attempt_bound :: attempt where
  "ex_attempt_bound =
     \<lparr>get_pvc = (\<lambda>ns n. Inr ex_pvc), get_pv = (\<lambda>n. Inr ex_pv),
      patch_pv = (\<lambda>pv updatedPV. None)\<rparr>"

definition ex_attempt_other_claim :: attempt where
  "ex_attempt_other_claim =
     \<lparr>get_pvc = (\<lambda>ns n. Inr ex_pvc), get_pv = (\<lambda>n. Inr ex_pv_other_claim),
      patch_pv = (\<lambda>pv updatedPV. None)\<rparr>"

definition ex_inventory :: "(string \<times> string list) list" where
  "ex_inventory =
     [(''v1/Pod'', [''ns2/pod-a(created)'']),
      (''v1/PersistentVolumeClaim'', [''ns2/pvc-a(created)'', ''ns2/pvc-b(skipped)''])]"

definition ex_store :: BackupStore where
  "ex_store =
     \<lparr>GetBackupVolumeInfos = (\<lambda>backupName. Inr [ex_volume]),
      GetRestoredResourceList = (\<lambda>restoreName. Inr ex_inventory),
      GetRestoreResults =
        (\<lambda>restoreName. Inr [(''errors'',
           \<lparr>Velero = [], Cluster = [], Namespaces = [(''ns2'', [''earlier failure''])]\<rparr>)]),
      putResults = (\<lambda>restore m. None)\<rparr>"

definition ex_request :: request where
  "ex_request = \<lparr>req_Namespace = ''velero'', req_Name = ''r1''\<rparr>"

text \<open>An environment in which the only volume's PV turns out bound to another claim.\<close>

definition ex_env :: env where
  "ex_env =
     \<lparr>namespace = ''velero'', Get = (\<lambda>req. Inr ex_restore),
      fetchBackupInfoInternal = (\<lambda>ns backupName. Inr ''default''),
      backupStoreGetter = (\<lambda>location. Inr ex_store),
      PatchResource = (\<lambda>original restore. None), clock_Now = 1000,
      crClient = (\<lambda>i. (ex_attempt_pending, [ex_attempt_other_claim, ex_attempt_bound]))\<rparr>"

text \<open>The same, with a restore that has already reached a terminal phase.\<close>

definition ex_env_completed :: env where
  "ex_env_completed = ex_env\<lparr>Get := (\<lambda>req. Inr (ex_restore\<lparr>Phase := RestorePhaseCompleted\<rparr>))\<rparr>"

text \<open>The backup is gone, and the patch of the restore is refused.\<close>

definition ex_env_backup_gone :: env where
  "ex_env_backup_gone =
     ex_env\<lparr>fetchBackupInfoInternal := (\<lambda>ns backupName. Inl (NotFound ''backup b1 not found'')),
            PatchResource := (\<lambda>original restore. Some (Failure ''conflict''))\<rparr>"

text \<open>The backup is gone, and the patch of the restore goes through.\<close>

definition ex_env_backup_missing :: env where
  "ex_env_backup_missing =
     ex_env\<lparr>fetchBackupInfoInternal := (\<lambda>ns backupName. Inl (NotFound ''backup b1 not found''))\<rparr>"

text \<open>The object store refuses the write of the results.\<close>

definition ex_env_put_fails :: env where
  "ex_env_put_fails =
     ex_env\<lparr>backupStoreGetter :=
       (\<lambda>location. Inr (ex_store\<lparr>putResults := (\<lambda>restore m. Some (Failure ''store unavailable''))\<rparr>))\<rparr>"

text \<open>A restore that enters in phase \<open>FinalizingPartiallyFailed\<close>, of a backup without volumes.\<close>

definition ex_env_no_volumes :: env where
  "ex_env_no_volumes =
     ex_env\<lparr>Get := (\<lambda>req. Inr (ex_restore\<lparr>Phase := RestorePhaseFinalizingPartiallyFailed\<rparr>)),
            backupStoreGetter :=
              (\<lambda>location. Inr (ex_store\<lparr>GetBackupVolumeInfos := (\<lambda>backupName. Inr [])\<rparr>))\<rparr>"

text \<open>The results are read back with an error.\<close>

definition ex_env_read_fails :: env where
  "ex_env_read_fails =
     ex_env\<lparr>backupStoreGetter :=
       (\<lambda>location. Inr (ex_store\<lparr>GetRestoreResults :=
          (\<lambda>restoreName. Inl (Failure ''store unavailable''))\<rparr>))\<rparr>"

text \<open>
  The finalizer context \<open>Reconcile\<close> builds in \<open>ex_env\<close>, the errors its only worker leaves, and
  these merged into the results stored earlier.
\<close>

definition ex_ctx :: finalizerContext where
  "ex_ctx =
     \<lparr>ctx_restore = ex_restore, ctx_crClient = crClient ex_env, ctx_volumeInfo = [ex_volume],
      ctx_restoredPVCList = getRestoredPVCFromRestoredResourceList ex_inventory\<rparr>"

definition ex_errs :: Result where
  "ex_errs =
     \<lparr>Velero = [], Cluster = [],
      Namespaces = [(''ns2'',
        [''fail to patch dynamic PV, err: PV was bound by unexpected PVC, unexpected PVC: ns2/pvc-z, expected PVC: ns2/pvc-a, PVC: pvc-a, PV: pv-old''])]\<rparr>"

definition ex_merged :: "(string \<times> Result) list" where
  "ex_merged =
     [(''warnings'', \<lparr>Velero = [], Cluster = [], Namespaces = []\<rparr>),
      (''errors'',
       \<lparr>Velero = [], Cluster = [],
        Namespaces = [(''ns2'',
          [''earlier failure'',
           ''fail to patch dynamic PV, err: PV was bound by unexpected PVC, unexpected PVC: ns2/pvc-z, expected PVC: ns2/pvc-a, PVC: pvc-a, PV: pv-old''])]\<rparr>)]"

section \<open>Predicates of the statements\<close>

text \<open>
  The selection predicate in the spec's words (all must hold): the backup method is
  pod-volume backup or CSI snapshot, there is a recorded PVInfo, and the remapped
  namespace/PVC-name pair is in the created-PVC set. The loop of the task is
  \<open>volume_loop\<close>; this predicate is what it is compared with.
\<close>

definition selection_predicate :: "finalizerContext \<Rightarrow> VolumeInfo \<Rightarrow> bool" where
  "selection_predicate ctx volumeItem \<longleftrightarrow>
     (BackupMethod volumeItem = PodVolumeBackup \<or> BackupMethod volumeItem = CSISnapshot)
     \<and> PVInfo volumeItem \<noteq> None
     \<and> restored_namespace (ctx_restore ctx) volumeItem @ ''/'' @ PVCName volumeItem
         \<in> ctx_restoredPVCList ctx"

text \<open>Kinds of trace entries.\<close>

definition is_PatchPV :: "effect \<Rightarrow> bool" where
  "is_PatchPV e = (case e of PatchPV pv updatedPV \<Rightarrow> True | _ \<Rightarrow> False)"

definition is_PatchRestore :: "effect \<Rightarrow> bool" where
  "is_PatchRestore e = (case e of PatchRestore original restore \<Rightarrow> True | _ \<Rightarrow> False)"

definition is_PutResults :: "effect \<Rightarrow> bool" where
  "is_PutResults e = (case e of PutResults restore m \<Rightarrow> True | _ \<Rightarrow> False)"

definition is_worker_effect :: "effect \<Rightarrow> bool" where
  "is_worker_effect e =
     (case e of WorkerStarted i volumeItem ns \<Rightarrow> True | PatchPV pv updatedPV \<Rightarrow> True | _ \<Rightarrow> False)"

text \<open>
  What the task's error result always looks like: nothing in the global and cluster scopes,
  and no namespace with an empty list.
\<close>

definition entries_nonempty :: "(string \<times> string list) list \<Rightarrow> bool" where
  "entries_nonempty m \<longleftrightarrow> list_all (\<lambda>p. snd p \<noteq> []) m"

definition errs_wellformed :: "Result \<Rightarrow> bool" where
  "errs_wellformed r \<longleftrightarrow> Velero r = [] \<and> Cluster r = [] \<and> entries_nonempty (Namespaces r)"

section \<open>Unfolding the examples\<close>

lemmas ex_defs =
  ex_env_def ex_store_def ex_inventory_def ex_attempt_other_claim_def ex_attempt_bound_def
  ex_attempt_pending_def ex_pv_other_claim_def ex_pv_def ex_pvc_def ex_volume_def ex_pvInfo_def
  ex_restore_def ex_request_def ex_env_completed_def ex_env_backup_gone_def ex_env_put_fails_def
  ex_env_no_volumes_def ex_env_read_fails_def ex_env_backup_missing_def

lemmas prog_defs =
  Reconcile_def finalize_def updateResults_def lookup_Result_def finishProcessing_def
  execute_def patchDynamicPVWithVolumeInfo_def volume_step_def restored_namespace_def worker_def
  patch_error_def PollUntilContextTimeout_def poll_condition_def unexpected_PVC_error_def
  needPatch_def getRestoredPVCFromRestoredResourceList_def ItemRestoreResultCreated_def
  result_count_def IsEmpty_def Add_def Merge_def empty_Result_def Let_def

section \<open>Counting and merging results\<close>

lemma count_namespaces_acc: "count_namespaces cnt m = cnt + count_namespaces 0 m"
proof (induction m arbitrary: cnt)
  case Nil
  show ?case by simp
next
  case (Cons p m)
  obtain k w where p: "p = (k, w)" by (cases p)
  have "count_namespaces cnt (p # m) = count_namespaces (cnt + length w) m" by (simp add: p)
  also have "\<dots> = cnt + length w + count_namespaces 0 m" by (rule Cons.IH)
  also have "\<dots> = cnt + count_namespaces (0 + length w) m" using Cons.IH [of "0 + length w"] by simp
  finally show ?case by (simp add: p)
qed

lemma count_ns_append: "count_namespaces cnt (ns_append k v m) = count_namespaces cnt m + length v"
proof (induction m arbitrary: cnt)
  case Nil
  show ?case by simp
next
  case (Cons p m)
  obtain k' w where p: "p = (k', w)" by (cases p)
  show ?case using Cons.IH count_namespaces_acc [of "cnt + (length w + length v)" m]
     count_namespaces_acc [of "cnt + length w" m] by (simp add: p)
qed

lemma count_fold_ns_append:
  "count_namespaces cnt (fold (\<lambda>(k, v) m. ns_append k v m) other m)
     = count_namespaces cnt m + count_namespaces 0 other"
proof (induction other arbitrary: m)
  case Nil
  show ?case by simp
next
  case (Cons p other)
  obtain k w where p: "p = (k, w)" by (cases p)
  show ?case using Cons.IH [of "ns_append k w m"] count_namespaces_acc [of "length w" other]
    by (simp add: p count_ns_append)
qed

lemma result_count_Add: "result_count (Add ns e r) = Suc (result_count r)"
  by (simp add: result_count_def Add_def count_ns_append)

lemma result_count_Merge: "result_count (Merge r other) = result_count r + result_count other"
  using count_namespaces_acc [of "length (Velero other) + length (Cluster other)" "Namespaces other"]
  count_namespaces_acc [of "length (Velero r) + length (Cluster r)" "Namespaces r"]
  count_namespaces_acc [of "length (Velero r) + length (Velero other) + (length (Cluster r) + length (Cluster other))" "Namespaces r"]
  by (simp add: result_count_def Merge_def count_fold_ns_append)

lemma result_count_empty: "result_count empty_Result = 0"
  by (simp add: result_count_def empty_Result_def)

lemma map_of_ns_append:
  "map_of (ns_append k v m) k' =
     (if k' = k then Some ((case map_of m k of None \<Rightarrow> [] | Some l \<Rightarrow> l) @ v) else map_of m k')"
  by (induction m) auto

lemma entries_nonempty_ns_append:
  "entries_nonempty m \<Longrightarrow> v \<noteq> [] \<Longrightarrow> entries_nonempty (ns_append k v m)"
  by (induction m) (auto simp: entries_nonempty_def)

lemma entries_nonempty_fold:
  "entries_nonempty m \<Longrightarrow> entries_nonempty other
    \<Longrightarrow> entries_nonempty (fold (\<lambda>(k, v) m. ns_append k v m) other m)"
proof (induction other arbitrary: m)
  case Nil
  then show ?case by simp
next
  case (Cons p other)
  obtain k w where p: "p = (k, w)" by (cases p)
  from Cons.prems have w: "w \<noteq> []" and o: "entries_nonempty other"
    by (simp_all add: entries_nonempty_def p)
  from Cons.prems(1) w have "entries_nonempty (ns_append k w m)" by (rule entries_nonempty_ns_append)
  from Cons.IH [OF this o] show ?case by (simp add: p)
qed

lemma entries_nonempty_count: "entries_nonempty m \<Longrightarrow> m \<noteq> [] \<Longrightarrow> 0 < count_namespaces cnt m"
proof (cases m)
  case Nil
  assume "m \<noteq> []" with Nil show ?thesis by simp
next
  case (Cons p m')
  assume ne: "entries_nonempty m"
  obtain k w where p: "p = (k, w)" by (cases p)
  from ne Cons p have "w \<noteq> []" by (simp add: entries_nonempty_def)
  then show ?thesis using count_namespaces_acc [of "cnt + length w" m'] by (simp add: Cons p)
qed

lemma errs_wellformed_count: "errs_wellformed r \<Longrightarrow> IsEmpty r \<longleftrightarrow> result_count r = 0"
  using entries_nonempty_count [of "Namespaces r" 0]
  by (cases "Namespaces r = []") (auto simp: errs_wellformed_def IsEmpty_def result_count_def)

lemma count_pos_not_empty: "0 < result_count r \<Longrightarrow> \<not> IsEmpty r"
  by (auto simp: IsEmpty_def result_count_def)

lemma errs_wellformed_Add: "errs_wellformed r \<Longrightarrow> errs_wellformed (Add ns e r)"
  by (simp add: errs_wellformed_def Add_def entries_nonempty_ns_append)

lemma errs_wellformed_empty: "errs_wellformed empty_Result"
  by (simp add: errs_wellformed_def empty_Result_def entries_nonempty_def)

lemma errs_wellformed_Merge: "errs_wellformed r \<Longrightarrow> errs_wellformed other \<Longrightarrow> errs_wellformed (Merge r other)"
  by (simp add: errs_wellformed_def Merge_def entries_nonempty_fold)

section \<open>The inventory of restored PVCs, verified\<close>

lemma pvc_loop_eq:
  "pvc_loop l S = S \<union> {take (length pvc - length ''(created)'') pvc | pvc. pvc \<in> set l
      \<and> FindAllStringSubmatch pvc \<noteq> [] \<and> last (FindAllStringSubmatch pvc) = ''created''}"
proof (induction l arbitrary: S)
  case Nil
  show ?case by simp
next
  case (Cons pvc l)
  show ?case
    by (auto simp: Cons.IH Let_def ItemRestoreResultCreated_def)
qed

lemma group_fits:
  "g \<in> set (FindAllStringSubmatch s) \<Longrightarrow> length g + 2 \<le> length s"
proof (induction s arbitrary: g rule: FindAllStringSubmatch.induct)
  case 1
  then show ?case by simp
next
  case (2 c cs)
  let ?g = "takeWhile (\<lambda>x. x \<noteq> CHR '')'') cs" and ?rest = "dropWhile (\<lambda>x. x \<noteq> CHR '')'') cs"
  show ?case
  proof (cases "c = CHR ''('' \<and> ?g \<noteq> [] \<and> ?rest \<noteq> []")
    case True
    have len: "length cs = length ?g + length ?rest"
      by (metis length_append takeWhile_dropWhile_id)
    from True have r: "0 < length ?rest" by simp
    from "2.prems" True have "g = ?g \<or> g \<in> set (FindAllStringSubmatch (tl ?rest))" by simp
    then show ?thesis
    proof
      assume "g = ?g"
      then have "length g = length ?g" by simp
      moreover have "length (c # cs) = Suc (length cs)" by simp
      ultimately show ?thesis using len r by linarith
    next
      assume "g \<in> set (FindAllStringSubmatch (tl ?rest))"
      with "2.IH"(1) True have "length g + 2 \<le> length (tl ?rest)" by simp
      moreover have "length (tl ?rest) \<le> length ?rest" by simp
      moreover have "length (c # cs) = Suc (length cs)" by simp
      ultimately show ?thesis using len by linarith
    qed
  next
    case False
    with "2.prems" have "g \<in> set (FindAllStringSubmatch cs)" by auto
    with "2.IH"(2) False have "length g + 2 \<le> length cs" by blast
    then show ?thesis by simp
  qed
qed

lemma created_entry_long:
  assumes "FindAllStringSubmatch pvc \<noteq> []" and "last (FindAllStringSubmatch pvc) = ''created''"
  shows "length ''(created)'' \<le> length pvc"
proof -
  from assms have "''created'' \<in> set (FindAllStringSubmatch pvc)" by (metis last_in_set)
  from group_fits [OF this] show ?thesis by simp
qed

lemma FindAll_skip_prefix:
  "CHR ''('' \<notin> set pre \<Longrightarrow> FindAllStringSubmatch (pre @ s) = FindAllStringSubmatch s"
  by (induction pre) auto

lemma FindAll_group:
  assumes "g \<noteq> []" and "CHR '')'' \<notin> set g"
  shows "FindAllStringSubmatch (CHR ''('' # g @ CHR '')'' # rest) = g # FindAllStringSubmatch rest"
proof -
  have ng: "\<And>x. x \<in> set g \<Longrightarrow> x \<noteq> CHR '')''"
    using assms(2) by auto
  have t: "takeWhile (\<lambda>x. x \<noteq> CHR '')'') (g @ CHR '')'' # rest) = g"
    by (simp add: takeWhile_append2 [of g, OF ng])
  have d: "dropWhile (\<lambda>x. x \<noteq> CHR '')'') (g @ CHR '')'' # rest) = CHR '')'' # rest"
    by (simp add: dropWhile_append2 [of g, OF ng])
  show ?thesis using assms(1) by (simp add: t d)
qed

lemma FindAll_name_status:
  assumes "CHR ''('' \<notin> set name" and "status \<noteq> []" and "CHR '')'' \<notin> set status"
  shows "FindAllStringSubmatch (name @ ''('' @ status @ '')'') = [status]"
  using FindAll_group [OF assms(2,3), of "[]"] by (simp add: FindAll_skip_prefix [OF assms(1)])

text \<open>
  An opening parenthesis that is not closed before the status becomes part of the group:
  such an entry is not classified as created.
\<close>

lemma unclosed_parenthesis_joins_group:
  "FindAllStringSubmatch ''ns1/pvc((created)'' = [''(created'']
   \<and> getRestoredPVCFromRestoredResourceList
        [(''v1/PersistentVolumeClaim'', [''ns1/pvc((created)''])] = {}"
  by (simp add: getRestoredPVCFromRestoredResourceList_def ItemRestoreResultCreated_def)

text \<open>
  Claim C2. A key is in the created-PVC set exactly when some entry stored under
  \<open>v1/PersistentVolumeClaim\<close> has matches of the pattern, the group of its last match is
  exactly \<open>created\<close>, and the key is the entry without its last nine characters (the entry
  is then at least that long). A parenthesized group is a match of the code's pattern
  \<open>\(([^)]+)\)\<close>. For an entry \<open>name(status)\<close> whose name has no opening parenthesis the only
  group is the status, so the entry adds \<open>name\<close> when the status is \<open>created\<close> and nothing
  otherwise. On the spec's examples: \<open>ns1/pvc-a(created)\<close> and \<open>ns1/pvc(weird)(created)\<close> are
  created, \<open>ns1/pvc-b(skipped)\<close> is not.
\<close>

theorem created_pvc_classification:
  "(key \<in> getRestoredPVCFromRestoredResourceList restoredResourceList \<longleftrightarrow>
      (\<exists>pvc \<in> set (case map_of restoredResourceList ''v1/PersistentVolumeClaim'' of
                      None \<Rightarrow> [] | Some l \<Rightarrow> l).
         FindAllStringSubmatch pvc \<noteq> [] \<and> last (FindAllStringSubmatch pvc) = ''created''
         \<and> length ''(created)'' \<le> length pvc
         \<and> key = take (length pvc - length ''(created)'') pvc))
   \<and> (CHR ''('' \<notin> set name \<and> status \<noteq> [] \<and> CHR '')'' \<notin> set status \<longrightarrow>
        FindAllStringSubmatch (name @ ''('' @ status @ '')'') = [status]
        \<and> getRestoredPVCFromRestoredResourceList
             [(''v1/PersistentVolumeClaim'', [name @ ''('' @ status @ '')''])]
           = (if status = ''created'' then {name} else {}))
   \<and> getRestoredPVCFromRestoredResourceList
        [(''v1/PersistentVolumeClaim'',
          [''ns1/pvc-a(created)'', ''ns1/pvc-b(skipped)'', ''ns1/pvc(weird)(created)''])]
      = {''ns1/pvc-a'', ''ns1/pvc(weird)''}"
proof -
  have a: "key \<in> getRestoredPVCFromRestoredResourceList restoredResourceList \<longleftrightarrow>
      (\<exists>pvc \<in> set (case map_of restoredResourceList ''v1/PersistentVolumeClaim'' of
                      None \<Rightarrow> [] | Some l \<Rightarrow> l).
         FindAllStringSubmatch pvc \<noteq> [] \<and> last (FindAllStringSubmatch pvc) = ''created''
         \<and> length ''(created)'' \<le> length pvc
         \<and> key = take (length pvc - length ''(created)'') pvc)"
  proof -
    let ?l = "case map_of restoredResourceList ''v1/PersistentVolumeClaim'' of
                None \<Rightarrow> [] | Some l \<Rightarrow> l"
    have "key \<in> getRestoredPVCFromRestoredResourceList restoredResourceList \<longleftrightarrow>
      (\<exists>pvc \<in> set ?l.
         FindAllStringSubmatch pvc \<noteq> [] \<and> last (FindAllStringSubmatch pvc) = ''created''
         \<and> key = take (length pvc - length ''(created)'') pvc)"
      unfolding getRestoredPVCFromRestoredResourceList_def pvc_loop_eq by blast
    also have "\<dots> \<longleftrightarrow>
      (\<exists>pvc \<in> set ?l.
         FindAllStringSubmatch pvc \<noteq> [] \<and> last (FindAllStringSubmatch pvc) = ''created''
         \<and> length ''(created)'' \<le> length pvc
         \<and> key = take (length pvc - length ''(created)'') pvc)"
      using created_entry_long by blast
    finally show ?thesis .
  qed
  have b: "FindAllStringSubmatch (name @ ''('' @ status @ '')'') = [status]
        \<and> getRestoredPVCFromRestoredResourceList
             [(''v1/PersistentVolumeClaim'', [name @ ''('' @ status @ '')''])]
           = (if status = ''created'' then {name} else {})"
    if "CHR ''('' \<notin> set name \<and> status \<noteq> [] \<and> CHR '')'' \<notin> set status"
  proof -
    from that have f: "FindAllStringSubmatch (name @ ''('' @ status @ '')'') = [status]"
      by (intro FindAll_name_status) simp_all
    from f have f': "FindAllStringSubmatch (name @ CHR ''('' # status @ [CHR '')'']) = [status]"
      by simp
    have "getRestoredPVCFromRestoredResourceList
             [(''v1/PersistentVolumeClaim'', [name @ ''('' @ status @ '')''])]
           = (if status = ''created'' then {name} else {})"
      by (simp add: f' getRestoredPVCFromRestoredResourceList_def Let_def
          ItemRestoreResultCreated_def)
    with f show ?thesis by blast
  qed
  have c: "getRestoredPVCFromRestoredResourceList
        [(''v1/PersistentVolumeClaim'',
          [''ns1/pvc-a(created)'', ''ns1/pvc-b(skipped)'', ''ns1/pvc(weird)(created)''])]
      = {''ns1/pvc-a'', ''ns1/pvc(weird)''}"
    by (simp add: getRestoredPVCFromRestoredResourceList_def ItemRestoreResultCreated_def insert_commute)
  from a b c show ?thesis by blast
qed

theorem created_pvc_classification_witness:
  "''ns2/pvc-a'' \<in> getRestoredPVCFromRestoredResourceList ex_inventory
   \<and> FindAllStringSubmatch ''ns2/pvc-b(skipped)'' = [''skipped'']
   \<and> getRestoredPVCFromRestoredResourceList
        [(''v1/PersistentVolumeClaim'', [''ns2/pvc-b(skipped)''])] = {}"
proof -
  have m: "\<exists>pvc \<in> set (case map_of ex_inventory ''v1/PersistentVolumeClaim'' of
                      None \<Rightarrow> [] | Some l \<Rightarrow> l).
         FindAllStringSubmatch pvc \<noteq> [] \<and> last (FindAllStringSubmatch pvc) = ''created''
         \<and> length ''(created)'' \<le> length pvc
         \<and> ''ns2/pvc-a'' = take (length pvc - length ''(created)'') pvc"
    by (simp add: ex_inventory_def)
  have n: "CHR ''('' \<notin> set ''ns2/pvc-b'' \<and> ''skipped'' \<noteq> [] \<and> CHR '')'' \<notin> set ''skipped''"
    by simp
  from created_pvc_classification [of "''ns2/pvc-a''" ex_inventory "''ns2/pvc-b''" "''skipped''"] m n
  show ?thesis by simp
qed

section \<open>The poll loop and the patch decision\<close>

lemma poll_condition_retry_silent:
  "fst (poll_condition volInfo pvInfo ns a) = (False, None) \<Longrightarrow> snd (poll_condition volInfo pvInfo ns a) = []"
  by (auto simp: poll_condition_def Let_def split: sum.splits option.splits if_splits)

lemma poll_condition_effects: "list_all is_PatchPV (snd (poll_condition volInfo pvInfo ns a))"
  by (auto simp: poll_condition_def is_PatchPV_def Let_def split: sum.splits option.splits)

lemma poll_loop_skip_retries:
  assumes "\<forall>b\<in>set pre. fst (condition b) = (False, None) \<and> snd (condition b) = []"
  shows "poll_loop condition (pre @ rest) = poll_loop condition rest"
  using assms
proof (induction pre)
  case Nil
  show ?case by simp
next
  case (Cons b pre)
  then have b: "condition b = ((False, None), [])" and IH: "poll_loop condition (pre @ rest) = poll_loop condition rest"
    by (auto simp: prod_eq_iff)
  show ?case by (simp add: b IH split: prod.splits)
qed

lemma poll_loop_effects:
  assumes "\<And>a. list_all P (snd (condition a))"
  shows "list_all P (snd (poll_loop condition as))"
proof (induction as)
  case Nil
  show ?case by simp
next
  case (Cons a as)
  obtain ok err fx where c: "condition a = ((ok, err), fx)" by (metis prod.exhaust)
  from assms [of a] c have fx: "list_all P fx" by simp
  show ?case using fx Cons.IH
    by (cases err; cases ok) (auto simp: c split: prod.splits)
qed

lemma worker_effects: "list_all is_PatchPV (snd (worker volInfo pvInfo ns answers errs))"
proof -
  have "list_all is_PatchPV (snd (PollUntilContextTimeout (poll_condition volInfo pvInfo ns) answers))"
    unfolding PollUntilContextTimeout_def by (rule poll_loop_effects) (rule poll_condition_effects)
  then show ?thesis by (auto simp: worker_def split: prod.splits option.splits)
qed

lemma labels_loop_iff:
  "labels_loop newPVLabels pvLabels \<longleftrightarrow> (\<exists>(k, v) \<in> set pvLabels. map_of newPVLabels k \<noteq> Some v)"
  by (induction pvLabels) auto

text \<open>
  Claim C4. \<open>needPatch\<close> holds exactly when the reclaim policy differs or some recorded label
  is missing from the PV's labels or is there with another value; labels only the PV has
  play no part. At a poll attempt that finds the PVC bound and the PV bound to this PVC,
  after any number of attempts that asked for a retry: the condition issues one patch when
  \<open>needPatch\<close> holds, from the PV just fetched to that PV with the recorded labels and
  reclaim policy, and none otherwise; the poll loop ends there, with success when no patch
  is needed or the patch succeeds (and with the patch error otherwise).
\<close>

theorem patch_decision:
  assumes "\<forall>b\<in>set pre. fst (poll_condition volInfo pvInfo ns b) = (False, None)"
    and "get_pvc a ns (PVCName volInfo) = Inr pvc"
    and "pvc_Phase pvc = ClaimBound" and "pvc_VolumeName pvc \<noteq> []"
    and "get_pv a (pvc_VolumeName pvc) = Inr pv"
    and "pv_ClaimRef pv = Some claimRef" and "pv_Phase pv = VolumeBound"
    and "ref_Name claimRef = pvc_Name pvc" and "ref_Namespace claimRef = ns"
    and "updatedPV = pv\<lparr>pv_Labels := Labels pvInfo, pv_ReclaimPolicy := ReclaimPolicy pvInfo\<rparr>"
  shows "(needPatch pv pvInfo \<longleftrightarrow>
            pv_ReclaimPolicy pv \<noteq> ReclaimPolicy pvInfo
            \<or> (\<exists>(k, v) \<in> set (Labels pvInfo).
                  map_of (pv_Labels pv) k = None \<or> map_of (pv_Labels pv) k \<noteq> Some v))
       \<and> snd (poll_condition volInfo pvInfo ns a)
           = (if needPatch pv pvInfo then [PatchPV pv updatedPV] else [])
       \<and> poll_loop (poll_condition volInfo pvInfo ns) (pre @ a # later)
           = (if needPatch pv pvInfo
              then (patch_pv a pv updatedPV, [PatchPV pv updatedPV])
              else (None, []))"
proof -
  have pre: "\<forall>b\<in>set pre. fst (poll_condition volInfo pvInfo ns b) = (False, None)
      \<and> snd (poll_condition volInfo pvInfo ns b) = []"
    using assms(1) poll_condition_retry_silent by blast
  have c: "poll_condition volInfo pvInfo ns a =
      (if needPatch pv pvInfo
       then (case patch_pv a pv updatedPV of
               Some err \<Rightarrow> ((False, Some err), [PatchPV pv updatedPV])
             | None \<Rightarrow> ((True, None), [PatchPV pv updatedPV]))
       else ((True, None), []))"
    using assms(2-9) unfolding assms(10) by (simp add: poll_condition_def Let_def)
  have n: "needPatch pv pvInfo \<longleftrightarrow>
            pv_ReclaimPolicy pv \<noteq> ReclaimPolicy pvInfo
            \<or> (\<exists>(k, v) \<in> set (Labels pvInfo).
                  map_of (pv_Labels pv) k = None \<or> map_of (pv_Labels pv) k \<noteq> Some v)"
  proof -
    have "\<And>k v. (map_of (pv_Labels pv) k = None \<or> map_of (pv_Labels pv) k \<noteq> Some v)
        \<longleftrightarrow> map_of (pv_Labels pv) k \<noteq> Some v"
      by auto
    then show ?thesis by (simp add: needPatch_def labels_loop_iff)
  qed
  have s: "snd (poll_condition volInfo pvInfo ns a)
           = (if needPatch pv pvInfo then [PatchPV pv updatedPV] else [])"
    by (simp add: c split: option.splits)
  have l: "poll_loop (poll_condition volInfo pvInfo ns) (pre @ a # later)
           = (if needPatch pv pvInfo
              then (patch_pv a pv updatedPV, [PatchPV pv updatedPV])
              else (None, []))"
    unfolding poll_loop_skip_retries [OF pre]
    by (simp add: c split: option.splits)
  from n s l show ?thesis by blast
qed

theorem patch_decision_witness:
  "needPatch ex_pv ex_pvInfo
   \<and> poll_loop (poll_condition ex_volume ex_pvInfo ''ns2'') [ex_attempt_pending, ex_attempt_bound]
       = (None, [PatchPV ex_pv (ex_pv\<lparr>pv_Labels := [(''app'', ''db'')],
                                      pv_ReclaimPolicy := ''Retain''\<rparr>)])"
proof -
  have pre: "\<forall>b\<in>set [ex_attempt_pending].
      fst (poll_condition ex_volume ex_pvInfo ''ns2'' b) = (False, None)"
    by (simp add: poll_condition_def ex_attempt_pending_def)
  have h: "get_pvc ex_attempt_bound ''ns2'' (PVCName ex_volume) = Inr ex_pvc"
    "pvc_Phase ex_pvc = ClaimBound" "pvc_VolumeName ex_pvc \<noteq> []"
    "get_pv ex_attempt_bound (pvc_VolumeName ex_pvc) = Inr ex_pv"
    "pv_ClaimRef ex_pv = Some \<lparr>ref_Name = ''pvc-a'', ref_Namespace = ''ns2''\<rparr>"
    "pv_Phase ex_pv = VolumeBound"
    "ref_Name \<lparr>ref_Name = ''pvc-a'', ref_Namespace = ''ns2''\<rparr> = pvc_Name ex_pvc"
    "ref_Namespace \<lparr>ref_Name = ''pvc-a'', ref_Namespace = ''ns2''\<rparr> = ''ns2''"
    by (simp_all add: ex_attempt_bound_def ex_pvc_def ex_pv_def)
  from patch_decision [OF pre h refl, where later = "[]"]
  show ?thesis
    by (simp add: ex_pv_def ex_pvInfo_def ex_attempt_bound_def)
qed

lemma ex_worker:
  "worker ex_volume ex_pvInfo ''ns2'' (ex_attempt_pending, [ex_attempt_other_claim, ex_attempt_bound])
     empty_Result = (ex_errs, [])"
  by (simp add: worker_def PollUntilContextTimeout_def poll_condition_def unexpected_PVC_error_def
      patch_error_def Add_def empty_Result_def ex_errs_def ex_attempt_pending_def
      ex_attempt_other_claim_def ex_pv_other_claim_def ex_pv_def ex_pvc_def ex_volume_def)

text \<open>
  Claim C5. At a poll attempt that finds the PVC bound and a bound PV whose claim reference
  names another PVC (name or namespace), after any number of attempts that asked for a
  retry: the poll loop ends at this attempt with the mismatch error, whatever the later
  attempts would answer; the worker issues no patch call; and it calls \<open>Add\<close> once, with the
  restored namespace, which appends exactly one message under that namespace and leaves
  the rest of the result as it was, so the count grows by one.
\<close>

theorem claim_mismatch_is_permanent:
  assumes "\<forall>b\<in>set pre. fst (poll_condition volInfo pvInfo ns b) = (False, None)"
    and "get_pvc a ns (PVCName volInfo) = Inr pvc"
    and "pvc_Phase pvc = ClaimBound" and "pvc_VolumeName pvc \<noteq> []"
    and "get_pv a (pvc_VolumeName pvc) = Inr pv"
    and "pv_ClaimRef pv = Some claimRef" and "pv_Phase pv = VolumeBound"
    and "ref_Name claimRef \<noteq> pvc_Name pvc \<or> ref_Namespace claimRef \<noteq> ns"
    and "first # rest = pre @ a # later"
    and "msg = Error (patch_error (unexpected_PVC_error claimRef ns (pvc_Name pvc)) volInfo)"
  shows "poll_loop (poll_condition volInfo pvInfo ns) (pre @ a # later)
           = (Some (unexpected_PVC_error claimRef ns (pvc_Name pvc)), [])
       \<and> worker volInfo pvInfo ns (first, rest) errs
           = (Add ns (patch_error (unexpected_PVC_error claimRef ns (pvc_Name pvc)) volInfo) errs,
              [])
       \<and> Add ns (patch_error (unexpected_PVC_error claimRef ns (pvc_Name pvc)) volInfo) errs
           = errs\<lparr>Namespaces := ns_append ns [msg] (Namespaces errs)\<rparr>
       \<and> result_count (fst (worker volInfo pvInfo ns (first, rest) errs)) = result_count errs + 1
       \<and> map_of (Namespaces (fst (worker volInfo pvInfo ns (first, rest) errs))) ns
           = Some ((case map_of (Namespaces errs) ns of None \<Rightarrow> [] | Some l \<Rightarrow> l) @ [msg])"
proof -
  have pre: "\<forall>b\<in>set pre. fst (poll_condition volInfo pvInfo ns b) = (False, None)
      \<and> snd (poll_condition volInfo pvInfo ns b) = []"
    using assms(1) poll_condition_retry_silent by blast
  have c: "poll_condition volInfo pvInfo ns a =
      ((False, Some (unexpected_PVC_error claimRef ns (pvc_Name pvc))), [])"
    using assms(2-8) by (auto simp: poll_condition_def Let_def)
  have l: "poll_loop (poll_condition volInfo pvInfo ns) (pre @ a # later)
           = (Some (unexpected_PVC_error claimRef ns (pvc_Name pvc)), [])"
    unfolding poll_loop_skip_retries [OF pre] by (simp add: c)
  have w: "worker volInfo pvInfo ns (first, rest) errs
           = (Add ns (patch_error (unexpected_PVC_error claimRef ns (pvc_Name pvc)) volInfo) errs,
              [])"
    by (simp add: worker_def PollUntilContextTimeout_def assms(9) l)
  have a: "Add ns (patch_error (unexpected_PVC_error claimRef ns (pvc_Name pvc)) volInfo) errs
           = errs\<lparr>Namespaces := ns_append ns [msg] (Namespaces errs)\<rparr>"
    by (simp add: Add_def assms(10))
  have cnt: "result_count (fst (worker volInfo pvInfo ns (first, rest) errs)) = result_count errs + 1"
    by (simp add: w result_count_Add)
  have m: "map_of (Namespaces (fst (worker volInfo pvInfo ns (first, rest) errs))) ns
           = Some ((case map_of (Namespaces errs) ns of None \<Rightarrow> [] | Some l \<Rightarrow> l) @ [msg])"
    by (simp add: w a map_of_ns_append)
  from l w a cnt m show ?thesis by blast
qed

theorem claim_mismatch_is_permanent_witness:
  "worker ex_volume ex_pvInfo ''ns2'' (ex_attempt_pending, [ex_attempt_other_claim, ex_attempt_bound])
     empty_Result = (ex_errs, [])
   \<and> result_count ex_errs = 1"
proof -
  have pre: "\<forall>b\<in>set [ex_attempt_pending].
      fst (poll_condition ex_volume ex_pvInfo ''ns2'' b) = (False, None)"
    by (simp add: poll_condition_def ex_attempt_pending_def)
  have h: "get_pvc ex_attempt_other_claim ''ns2'' (PVCName ex_volume) = Inr ex_pvc"
    "pvc_Phase ex_pvc = ClaimBound" "pvc_VolumeName ex_pvc \<noteq> []"
    "get_pv ex_attempt_other_claim (pvc_VolumeName ex_pvc) = Inr ex_pv_other_claim"
    "pv_ClaimRef ex_pv_other_claim = Some \<lparr>ref_Name = ''pvc-z'', ref_Namespace = ''ns2''\<rparr>"
    "pv_Phase ex_pv_other_claim = VolumeBound"
    "ref_Name \<lparr>ref_Name = ''pvc-z'', ref_Namespace = ''ns2''\<rparr> \<noteq> pvc_Name ex_pvc
     \<or> ref_Namespace \<lparr>ref_Name = ''pvc-z'', ref_Namespace = ''ns2''\<rparr> \<noteq> ''ns2''"
    by (simp_all add: ex_attempt_other_claim_def ex_pvc_def ex_pv_other_claim_def ex_pv_def)
  have l: "ex_attempt_pending # [ex_attempt_other_claim, ex_attempt_bound]
      = [ex_attempt_pending] @ ex_attempt_other_claim # [ex_attempt_bound]"
    by simp
  from claim_mismatch_is_permanent [OF pre h l refl, where errs = empty_Result]
  show ?thesis
    by (simp add: ex_errs_def empty_Result_def patch_error_def unexpected_PVC_error_def
        ex_volume_def ex_pvc_def result_count_def)
qed

section \<open>The loop over the volumes\<close>

lemma volume_step_skip: "\<not> selection_predicate ctx v \<Longrightarrow> volume_step ctx i v st = st"
  by (cases st) (auto simp: volume_step_def selection_predicate_def Let_def split: option.splits)

lemma volume_step_selected:
  assumes "selection_predicate ctx v"
  shows "\<exists>pvInfo. PVInfo v = Some pvInfo \<and>
     volume_step ctx i v st =
       (fst (worker v pvInfo (restored_namespace (ctx_restore ctx) v) (ctx_crClient ctx i) (fst st)),
        snd st @ WorkerStarted i v (restored_namespace (ctx_restore ctx) v)
          # snd (worker v pvInfo (restored_namespace (ctx_restore ctx) v) (ctx_crClient ctx i) (fst st)))"
  using assms
  by (auto simp: volume_step_def selection_predicate_def Let_def split: option.splits prod.splits)

lemma not_PatchPV_WorkerStarted: "list_all is_PatchPV fx \<Longrightarrow> WorkerStarted j v ns \<notin> set fx"
  by (auto simp: list_all_iff is_PatchPV_def)

lemma volume_step_started:
  "WorkerStarted j v ns \<in> set (snd (volume_step ctx i u st)) \<longleftrightarrow>
     WorkerStarted j v ns \<in> set (snd st)
     \<or> (j = i \<and> v = u \<and> selection_predicate ctx u \<and> ns = restored_namespace (ctx_restore ctx) u)"
proof (cases "selection_predicate ctx u")
  case False
  then show ?thesis by (simp add: volume_step_skip)
next
  case True
  from volume_step_selected [OF True, of i st] obtain pvInfo where
    s: "volume_step ctx i u st =
       (fst (worker u pvInfo (restored_namespace (ctx_restore ctx) u) (ctx_crClient ctx i) (fst st)),
        snd st @ WorkerStarted i u (restored_namespace (ctx_restore ctx) u)
          # snd (worker u pvInfo (restored_namespace (ctx_restore ctx) u) (ctx_crClient ctx i) (fst st)))"
    by blast
  have "WorkerStarted j v ns \<notin> set (snd (worker u pvInfo (restored_namespace (ctx_restore ctx) u) (ctx_crClient ctx i) (fst st)))"
    by (rule not_PatchPV_WorkerStarted) (rule worker_effects)
  with True show ?thesis by (auto simp: s)
qed

lemma volume_loop_started:
  "WorkerStarted j v ns \<in> set (snd (volume_loop ctx i vs st)) \<longleftrightarrow>
     WorkerStarted j v ns \<in> set (snd st)
     \<or> (i \<le> j \<and> j < i + length vs \<and> v = vs ! (j - i) \<and> selection_predicate ctx v
         \<and> ns = restored_namespace (ctx_restore ctx) v)"
proof (induction vs arbitrary: i st)
  case Nil
  show ?case by auto
next
  case (Cons u vs)
  have "i \<le> j \<and> j < i + length (u # vs) \<and> v = (u # vs) ! (j - i) \<longleftrightarrow>
        (j = i \<and> v = u) \<or> (Suc i \<le> j \<and> j < Suc i + length vs \<and> v = vs ! (j - Suc i))"
  proof (cases "j = i")
    case True
    then show ?thesis by simp
  next
    case False
    then have "i \<le> j \<longleftrightarrow> Suc i \<le> j" by arith
    moreover have "Suc i \<le> j \<Longrightarrow> (u # vs) ! (j - i) = vs ! (j - Suc i)"
      by (simp add: nth_Cons' Suc_diff_le)
    ultimately show ?thesis using False by auto
  qed
  then show ?case by (auto simp: Cons.IH volume_step_started)
qed

lemma volume_loop_none_selected:
  "\<forall>v\<in>set vs. \<not> selection_predicate ctx v \<Longrightarrow> volume_loop ctx i vs st = st"
  by (induction vs arbitrary: i) (simp_all add: volume_step_skip)

lemma volume_step_wellformed: "errs_wellformed (fst st) \<Longrightarrow> errs_wellformed (fst (volume_step ctx i v st))"
proof (cases "selection_predicate ctx v")
  case False
  assume "errs_wellformed (fst st)"
  with False show ?thesis by (simp add: volume_step_skip)
next
  case True
  assume w: "errs_wellformed (fst st)"
  have "\<And>pvInfo ns answers. errs_wellformed (fst (worker v pvInfo ns answers (fst st)))"
    using w by (auto simp: worker_def errs_wellformed_Add split: prod.splits option.splits)
  with volume_step_selected [OF True, of i st] show ?thesis by (metis fst_conv)
qed

lemma volume_loop_wellformed:
  "errs_wellformed (fst st) \<Longrightarrow> errs_wellformed (fst (volume_loop ctx i vs st))"
  by (induction vs arbitrary: i st) (simp_all add: volume_step_wellformed)

lemma execute_warnings: "fst (fst (execute ctx)) = empty_Result"
  by (simp add: execute_def split: prod.splits)

lemma execute_errs_wellformed: "errs_wellformed (snd (fst (execute ctx)))"
proof -
  have "errs_wellformed (fst (patchDynamicPVWithVolumeInfo ctx))"
    unfolding patchDynamicPVWithVolumeInfo_def
    by (rule volume_loop_wellformed) (simp add: errs_wellformed_empty)
  then show ?thesis
    by (auto simp: execute_def errs_wellformed_Merge errs_wellformed_empty split: prod.splits)
qed

lemma execute_none_selected:
  assumes "\<forall>v\<in>set (ctx_volumeInfo ctx). \<not> selection_predicate ctx v"
  shows "execute ctx = ((empty_Result, empty_Result), [])"
  by (simp add: execute_def patchDynamicPVWithVolumeInfo_def volume_loop_none_selected [OF assms]
      Merge_def empty_Result_def)

lemma ex_ctx_created: "ctx_restoredPVCList ex_ctx = {''ns2/pvc-a''}"
  by (simp add: ex_ctx_def ex_inventory_def getRestoredPVCFromRestoredResourceList_def
      ItemRestoreResultCreated_def)

text \<open>
  Claim C3. For the volume at position \<open>i\<close> of the volume-info list, a worker is started
  for it exactly when the selection predicate holds, and then for the remapped namespace; the
  loop step of a volume that fails the predicate leaves the error result and the trace as
  they are.
\<close>

theorem worker_started_iff_selected:
  assumes "i < length (ctx_volumeInfo ctx)" and "volumeItem = ctx_volumeInfo ctx ! i"
  shows "((\<exists>ns. WorkerStarted i volumeItem ns \<in> set (snd (patchDynamicPVWithVolumeInfo ctx)))
            \<longleftrightarrow> selection_predicate ctx volumeItem)
       \<and> (WorkerStarted i volumeItem ns \<in> set (snd (patchDynamicPVWithVolumeInfo ctx))
            \<longrightarrow> ns = restored_namespace (ctx_restore ctx) volumeItem)
       \<and> (\<not> selection_predicate ctx volumeItem \<longrightarrow> volume_step ctx i volumeItem st = st)"
  using assms
  by (simp add: patchDynamicPVWithVolumeInfo_def volume_loop_started volume_step_skip)

theorem worker_started_iff_selected_witness:
  "(\<exists>ns. WorkerStarted 0 ex_volume ns \<in> set (snd (patchDynamicPVWithVolumeInfo ex_ctx)))
   \<and> selection_predicate ex_ctx ex_volume
   \<and> \<not> selection_predicate (ex_ctx\<lparr>ctx_restoredPVCList := {}\<rparr>) ex_volume
   \<and> volume_step (ex_ctx\<lparr>ctx_restoredPVCList := {}\<rparr>) 0 ex_volume (empty_Result, [])
       = (empty_Result, [])"
proof -
  have s: "selection_predicate ex_ctx ex_volume"
    by (simp add: selection_predicate_def ex_ctx_created restored_namespace_def)
       (simp add: ex_ctx_def ex_volume_def ex_restore_def)
  have i: "0 < length (ctx_volumeInfo ex_ctx)" "ex_volume = ctx_volumeInfo ex_ctx ! 0"
    by (simp_all add: ex_ctx_def)
  from worker_started_iff_selected [OF i, of "''ns2''" "(empty_Result, [])"] s
  have a: "\<exists>ns. WorkerStarted 0 ex_volume ns \<in> set (snd (patchDynamicPVWithVolumeInfo ex_ctx))"
    by blast
  have n: "\<not> selection_predicate (ex_ctx\<lparr>ctx_restoredPVCList := {}\<rparr>) ex_volume"
    by (simp add: selection_predicate_def)
  have j: "0 < length (ctx_volumeInfo (ex_ctx\<lparr>ctx_restoredPVCList := {}\<rparr>))"
    "ex_volume = ctx_volumeInfo (ex_ctx\<lparr>ctx_restoredPVCList := {}\<rparr>) ! 0"
    by (simp_all add: ex_ctx_def)
  from worker_started_iff_selected [OF j, of "''ns2''" "(empty_Result, [])"] n
  have b: "volume_step (ex_ctx\<lparr>ctx_restoredPVCList := {}\<rparr>) 0 ex_volume (empty_Result, [])
       = (empty_Result, [])"
    by blast
  from a s n b show ?thesis by blast
qed

section \<open>The trace of the reconciler\<close>

lemma volume_step_worker_effects:
  "list_all is_worker_effect (snd st) \<Longrightarrow> list_all is_worker_effect (snd (volume_step ctx i v st))"
proof (cases "selection_predicate ctx v")
  case False
  assume "list_all is_worker_effect (snd st)"
  with False show ?thesis by (simp add: volume_step_skip)
next
  case True
  assume a: "list_all is_worker_effect (snd st)"
  from volume_step_selected [OF True, of i st] obtain pvInfo where
    s: "volume_step ctx i v st =
       (fst (worker v pvInfo (restored_namespace (ctx_restore ctx) v) (ctx_crClient ctx i) (fst st)),
        snd st @ WorkerStarted i v (restored_namespace (ctx_restore ctx) v)
          # snd (worker v pvInfo (restored_namespace (ctx_restore ctx) v) (ctx_crClient ctx i) (fst st)))"
    by blast
  have "list_all is_PatchPV
     (snd (worker v pvInfo (restored_namespace (ctx_restore ctx) v) (ctx_crClient ctx i) (fst st)))"
    by (rule worker_effects)
  then have "list_all is_worker_effect
     (snd (worker v pvInfo (restored_namespace (ctx_restore ctx) v) (ctx_crClient ctx i) (fst st)))"
    by (auto simp: list_all_iff is_PatchPV_def is_worker_effect_def split: effect.splits)
  with a show ?thesis by (simp add: s is_worker_effect_def)
qed

lemma volume_loop_worker_effects:
  "list_all is_worker_effect (snd st) \<Longrightarrow> list_all is_worker_effect (snd (volume_loop ctx i vs st))"
  by (induction vs arbitrary: i st) (simp_all add: volume_step_worker_effects)

lemma execute_worker_effects: "list_all is_worker_effect (snd (execute ctx))"
proof -
  have "list_all is_worker_effect (snd (patchDynamicPVWithVolumeInfo ctx))"
    unfolding patchDynamicPVWithVolumeInfo_def by (rule volume_loop_worker_effects) simp
  then show ?thesis by (cases "patchDynamicPVWithVolumeInfo ctx") (simp add: execute_def)
qed

lemma filter_worker_effects:
  assumes "list_all is_worker_effect fx"
  shows "filter is_PatchRestore fx = []" and "filter is_PutResults fx = []"
  using assms
  by (auto simp: list_all_iff filter_empty_conv is_worker_effect_def is_PatchRestore_def
      is_PutResults_def split: effect.splits)

lemma reconcile_with_store:
  assumes "Get r req = Inr original"
    and "Phase original = RestorePhaseFinalizing \<or> Phase original = RestorePhaseFinalizingPartiallyFailed"
    and "fetchBackupInfoInternal r (namespace r) (BackupName original) = Inr location"
    and "backupStoreGetter r location = Inr backupStore"
  shows "Reconcile r req =
     (fst (finalize r backupStore original original),
      snd (finalize r backupStore original original) @ [CleanupClients])"
  using assms by (auto simp: Reconcile_def Let_def split: prod.splits)

lemma finalize_loaded:
  assumes "GetBackupVolumeInfos backupStore (BackupName original) = Inr volumeInfo"
    and "GetRestoredResourceList backupStore (Name original) = Inr restoredResourceList"
    and "execute \<lparr>ctx_restore = original, ctx_crClient = crClient r, ctx_volumeInfo = volumeInfo,
           ctx_restoredPVCList = getRestoredPVCFromRestoredResourceList restoredResourceList\<rparr>
         = ((warnings, errs), fx)"
    and "restore' = original\<lparr>Warnings := Warnings original + of_nat (result_count warnings),
           Errors := Errors original + of_nat (result_count errs),
           Phase := (if \<not> IsEmpty errs then RestorePhaseFinalizingPartiallyFailed
                     else Phase original)\<rparr>"
    and "u = (if 0 < result_count warnings \<or> 0 < result_count errs
              then updateResults backupStore restore' warnings errs else (None, []))"
    and "patched = restore'\<lparr>Phase := (if Phase original = RestorePhaseFinalizingPartiallyFailed
                                          \<or> \<not> IsEmpty errs
                                       then RestorePhasePartiallyFailed else RestorePhaseCompleted),
                             CompletionTimestamp := Some (clock_Now r)\<rparr>"
  shows "finalize r backupStore original original =
     (case fst u of
        Some err \<Rightarrow> (Some (Wrap err ''error updating results''), fx @ snd u)
      | None \<Rightarrow>
          (case PatchResource r original patched of
             None \<Rightarrow> None
           | Some err \<Rightarrow> Some (Wrap err ''error updating restore's final status''),
           fx @ snd u @
           [if Phase original = RestorePhaseFinalizingPartiallyFailed \<or> \<not> IsEmpty errs
            then RegisterRestorePartialFailure (ScheduleName original)
            else RegisterRestoreSuccess (ScheduleName original),
            PatchRestore original patched]))"
proof -
  let ?r1 = "original\<lparr>Warnings := Warnings original + of_nat (result_count warnings),
                       Errors := Errors original + of_nat (result_count errs)\<rparr>"
  have r2: "(if \<not> IsEmpty errs then ?r1\<lparr>Phase := RestorePhaseFinalizingPartiallyFailed\<rparr> else ?r1)
      = restore'"
    unfolding assms(4) by simp
  have ph: "Phase restore' = RestorePhaseFinalizingPartiallyFailed \<longleftrightarrow>
      Phase original = RestorePhaseFinalizingPartiallyFailed \<or> \<not> IsEmpty errs"
    unfolding assms(4) by simp
  have sn: "ScheduleName restore' = ScheduleName original"
    unfolding assms(4) by simp
  have f: "finalize r backupStore original original =
     (case fst u of
        Some err \<Rightarrow> (Some (Wrap err ''error updating results''), fx @ snd u)
      | None \<Rightarrow>
          (case finishProcessing r
                  (if Phase restore' = RestorePhaseFinalizingPartiallyFailed
                   then RestorePhasePartiallyFailed else RestorePhaseCompleted) restore' original of
             (Some err, pfx) \<Rightarrow>
                (Some (Wrap err ''error updating restore's final status''), fx @ snd u @ pfx)
           | (None, pfx) \<Rightarrow> (None, fx @ snd u @ pfx)))"
    unfolding finalize_def assms(1,2,3) Let_def sum.case prod.case r2 assms(5) [symmetric]
    by (cases u) (auto split: option.splits prod.splits)
  show ?thesis
    unfolding f ph assms(6)
    by (cases "Phase original = RestorePhaseFinalizingPartiallyFailed \<or> \<not> IsEmpty errs")
       (simp_all add: finishProcessing_def sn split: option.splits)
qed

lemma updateResults_effects: "list_all is_PutResults (snd (updateResults backupStore restore w e))"
  by (simp add: updateResults_def is_PutResults_def Let_def split: sum.splits option.splits)

lemma updateResults_no_patch: "filter is_PatchRestore (snd (updateResults backupStore restore w e)) = []"
  by (simp add: updateResults_def is_PatchRestore_def Let_def split: sum.splits option.splits)

lemma updateResults_puts:
  "snd (updateResults backupStore restore w e) =
     (case GetRestoreResults backupStore (Name restore) of
        Inl err \<Rightarrow> []
      | Inr originResults \<Rightarrow>
          [PutResults restore
             [(''warnings'', Merge (lookup_Result originResults ''warnings'') w),
              (''errors'', Merge (lookup_Result originResults ''errors'') e)]])"
  by (simp add: updateResults_def Let_def split: sum.splits option.splits)

lemma finalize_traces:
  assumes "GetBackupVolumeInfos backupStore (BackupName original) = Inr volumeInfo"
    and "GetRestoredResourceList backupStore (Name original) = Inr restoredResourceList"
    and "execute \<lparr>ctx_restore = original, ctx_crClient = crClient r, ctx_volumeInfo = volumeInfo,
           ctx_restoredPVCList = getRestoredPVCFromRestoredResourceList restoredResourceList\<rparr>
         = ((warnings, errs), fx)"
    and "restore' = original\<lparr>Warnings := Warnings original + of_nat (result_count warnings),
           Errors := Errors original + of_nat (result_count errs),
           Phase := (if \<not> IsEmpty errs then RestorePhaseFinalizingPartiallyFailed
                     else Phase original)\<rparr>"
    and "u = (if 0 < result_count warnings \<or> 0 < result_count errs
              then updateResults backupStore restore' warnings errs else (None, []))"
    and "patched = restore'\<lparr>Phase := (if Phase original = RestorePhaseFinalizingPartiallyFailed
                                          \<or> \<not> IsEmpty errs
                                       then RestorePhasePartiallyFailed else RestorePhaseCompleted),
                             CompletionTimestamp := Some (clock_Now r)\<rparr>"
  shows "filter is_PatchRestore (snd (finalize r backupStore original original))
           = (if fst u = None then [PatchRestore original patched] else [])"
    and "filter is_PutResults (snd (finalize r backupStore original original)) = snd u"
proof -
  have "list_all is_worker_effect (snd (execute \<lparr>ctx_restore = original, ctx_crClient = crClient r,
           ctx_volumeInfo = volumeInfo,
           ctx_restoredPVCList = getRestoredPVCFromRestoredResourceList restoredResourceList\<rparr>))"
    by (rule execute_worker_effects)
  then have fx: "list_all is_worker_effect fx" by (simp add: assms(3))
  have u1: "filter is_PatchRestore (snd u) = []"
    by (simp add: assms(5) updateResults_no_patch)
  have "list_all is_PutResults (snd u)"
    by (simp add: assms(5) updateResults_effects)
  then have u2: "filter is_PutResults (snd u) = snd u"
    by (simp add: list_all_iff)
  note f = finalize_loaded [OF assms]
  show "filter is_PatchRestore (snd (finalize r backupStore original original))
           = (if fst u = None then [PatchRestore original patched] else [])"
    by (cases "fst u")
       (simp_all add: f filter_worker_effects(1) [OF fx] u1 is_PatchRestore_def)
  show "filter is_PutResults (snd (finalize r backupStore original original)) = snd u"
    by (cases "fst u")
       (simp_all add: f filter_worker_effects(2) [OF fx] u2 is_PutResults_def)
qed

lemma ex_loads:
  "Get ex_env ex_request = Inr ex_restore"
  "Phase ex_restore = RestorePhaseFinalizing \<or> Phase ex_restore = RestorePhaseFinalizingPartiallyFailed"
  "fetchBackupInfoInternal ex_env (namespace ex_env) (BackupName ex_restore) = Inr ''default''"
  "backupStoreGetter ex_env ''default'' = Inr ex_store"
  "GetBackupVolumeInfos ex_store (BackupName ex_restore) = Inr [ex_volume]"
  "GetRestoredResourceList ex_store (Name ex_restore) = Inr ex_inventory"
  by (simp_all add: ex_env_def ex_restore_def ex_store_def)

lemma ex_execute: "execute ex_ctx = ((empty_Result, ex_errs), [WorkerStarted 0 ex_volume ''ns2''])"
  by (simp add: ex_defs prog_defs ex_ctx_def ex_errs_def Let_def)

section \<open>Restores that are not awaiting finalization\<close>

text \<open>
  Claim C8. When the restore resource is not found, or its phase is neither \<open>Finalizing\<close> nor
  \<open>FinalizingPartiallyFailed\<close>, \<open>Reconcile\<close> returns success and its trace is empty: the
  restore is not patched, nothing is written to the persistence layer, no metric is
  recorded and no worker is started.
\<close>

theorem reconcile_skips_when_not_finalizing:
  assumes "(\<exists>err. Get r req = Inl err \<and> IsNotFound err)
     \<or> (\<exists>restore. Get r req = Inr restore \<and> Phase restore \<noteq> RestorePhaseFinalizing
            \<and> Phase restore \<noteq> RestorePhaseFinalizingPartiallyFailed)"
  shows "Reconcile r req = (None, [])"
  using assms by (auto simp: Reconcile_def)

theorem reconcile_skips_when_not_finalizing_witness:
  "Get ex_env_completed ex_request = Inr (ex_restore\<lparr>Phase := RestorePhaseCompleted\<rparr>)
   \<and> Phase (ex_restore\<lparr>Phase := RestorePhaseCompleted\<rparr>) \<noteq> RestorePhaseFinalizing
   \<and> Phase (ex_restore\<lparr>Phase := RestorePhaseCompleted\<rparr>) \<noteq> RestorePhaseFinalizingPartiallyFailed
   \<and> Reconcile ex_env_completed ex_request = (None, [])"
proof -
  have g: "Get ex_env_completed ex_request = Inr (ex_restore\<lparr>Phase := RestorePhaseCompleted\<rparr>)"
    by (simp add: ex_env_completed_def ex_env_def)
  have p: "Phase (ex_restore\<lparr>Phase := RestorePhaseCompleted\<rparr>) \<noteq> RestorePhaseFinalizing
     \<and> Phase (ex_restore\<lparr>Phase := RestorePhaseCompleted\<rparr>) \<noteq> RestorePhaseFinalizingPartiallyFailed"
    by simp
  from g p have "Reconcile ex_env_completed ex_request = (None, [])"
    by (intro reconcile_skips_when_not_finalizing) blast
  with g p show ?thesis by simp
qed

section \<open>The backup cannot be fetched\<close>

text \<open>
  Claim C6, as stated, promises success whenever the backup of a finalizing restore is not
  found. With the backup gone and the patch of the restore refused, \<open>Reconcile\<close> returns the
  wrapped patch error.
\<close>

theorem backup_not_found_patch_refused_counterexample:
  "Reconcile ex_env_backup_gone ex_request =
     (Some (Failure ''error updating restore's final status: conflict''),
      [RegisterRestorePartialFailure ''daily'',
       PatchRestore ex_restore
         (ex_restore\<lparr>Phase := RestorePhasePartiallyFailed, CompletionTimestamp := Some 1000\<rparr>)])"
  by (simp add: ex_env_backup_gone_def ex_env_def Reconcile_def finishProcessing_def ex_restore_def)

text \<open>
  Claim C6, amended. For a restore in a finalizing phase whose backup fetch fails: when the
  error is not-found, the reconciler starts no worker and writes no results, records a
  partial failure and submits one patch that sets the phase to \<open>PartiallyFailed\<close> and stamps
  the completion time; the call returns success when that patch succeeds and the wrapped
  patch error when it does not. Any other fetch error is returned, wrapped, and nothing
  else happens.
\<close>

theorem backup_fetch_error:
  assumes "Get r req = Inr original"
    and "Phase original = RestorePhaseFinalizing
         \<or> Phase original = RestorePhaseFinalizingPartiallyFailed"
    and "fetchBackupInfoInternal r (namespace r) (BackupName original) = Inl err"
  shows "Reconcile r req =
     (if IsNotFound err then
        (case PatchResource r original
                (original\<lparr>Phase := RestorePhasePartiallyFailed,
                          CompletionTimestamp := Some (clock_Now r)\<rparr>) of
           None \<Rightarrow> None
         | Some err2 \<Rightarrow> Some (Wrap err2 ''error updating restore's final status''),
         [RegisterRestorePartialFailure (ScheduleName original),
          PatchRestore original
            (original\<lparr>Phase := RestorePhasePartiallyFailed,
                      CompletionTimestamp := Some (clock_Now r)\<rparr>)])
      else (Some (Wrap err ''error getting backup info''), []))"
  using assms by (auto simp: Reconcile_def finishProcessing_def Let_def split: option.splits)

theorem backup_fetch_error_witness:
  "Reconcile (ex_env_backup_gone\<lparr>PatchResource := PatchResource ex_env\<rparr>) ex_request =
     (None,
      [RegisterRestorePartialFailure ''daily'',
       PatchRestore ex_restore
         (ex_restore\<lparr>Phase := RestorePhasePartiallyFailed, CompletionTimestamp := Some 1000\<rparr>)])"
  using backup_fetch_error [of "ex_env_backup_gone\<lparr>PatchResource := PatchResource ex_env\<rparr>"
      ex_request ex_restore "NotFound ''backup b1 not found''"]
  by (simp add: ex_env_backup_gone_def ex_env_def ex_restore_def)

section \<open>Counts, final phase and completion time\<close>

text \<open>
  Claim C1, as stated, promises a patched final phase and a completion timestamp whenever
  the restore is found in a finalizing phase and every load succeeds. In
  \<open>ex_env_put_fails\<close> all that holds, the only worker fails, and the write of the results
  is refused: \<open>Reconcile\<close> returns that error and the restore is not patched.
\<close>

theorem result_write_refused_counterexample:
  "Reconcile ex_env_put_fails ex_request =
     (Some (Failure ''error updating results: error putting restore results: store unavailable''),
      [WorkerStarted 0 ex_volume ''ns2'',
       PutResults (ex_restore\<lparr>Phase := RestorePhaseFinalizingPartiallyFailed, Errors := 2\<rparr>) ex_merged,
       CleanupClients])"
  by (simp add: ex_defs prog_defs ex_merged_def Let_def)

text \<open>
  Claim C1, amended. For a reconcile call that finds the restore in phase \<open>Finalizing\<close> or
  \<open>FinalizingPartiallyFailed\<close>, whose loads all succeed, and whose update of the stored
  results, when the pass produced a warning or an error, succeeds: exactly one patch of the
  restore is submitted, against the restore as fetched; in it \<open>Warnings\<close> and \<open>Errors\<close>
  are the fetched counts plus the number of entries of the returned warnings and errors
  over their three scopes, the phase is \<open>PartiallyFailed\<close> if the restore entered in
  \<open>FinalizingPartiallyFailed\<close> or the tasks produced an error and \<open>Completed\<close> otherwise,
  and the completion timestamp is the clock's time. The tasks' error result has an entry
  exactly when it is not empty.
\<close>

theorem finalization_counts_and_phase:
  assumes "Get r req = Inr original"
    and "Phase original = RestorePhaseFinalizing
         \<or> Phase original = RestorePhaseFinalizingPartiallyFailed"
    and "fetchBackupInfoInternal r (namespace r) (BackupName original) = Inr location"
    and "backupStoreGetter r location = Inr backupStore"
    and "GetBackupVolumeInfos backupStore (BackupName original) = Inr volumeInfo"
    and "GetRestoredResourceList backupStore (Name original) = Inr restoredResourceList"
    and "execute \<lparr>ctx_restore = original, ctx_crClient = crClient r, ctx_volumeInfo = volumeInfo,
           ctx_restoredPVCList = getRestoredPVCFromRestoredResourceList restoredResourceList\<rparr>
         = ((warnings, errs), fx)"
    and "restore' = original\<lparr>Warnings := Warnings original + of_nat (result_count warnings),
           Errors := Errors original + of_nat (result_count errs),
           Phase := (if \<not> IsEmpty errs then RestorePhaseFinalizingPartiallyFailed
                     else Phase original)\<rparr>"
    and "result_count warnings + result_count errs = 0
         \<or> fst (updateResults backupStore restore' warnings errs) = None"
  shows "filter is_PatchRestore (snd (Reconcile r req)) =
           [PatchRestore original
              (original\<lparr>Warnings := Warnings original + of_nat (result_count warnings),
                        Errors := Errors original + of_nat (result_count errs),
                        Phase := (if Phase original = RestorePhaseFinalizingPartiallyFailed
                                     \<or> 0 < result_count errs
                                  then RestorePhasePartiallyFailed else RestorePhaseCompleted),
                        CompletionTimestamp := Some (clock_Now r)\<rparr>)]
       \<and> (0 < result_count errs \<longleftrightarrow> \<not> IsEmpty errs)"
proof -
  have "errs_wellformed (snd (fst (execute \<lparr>ctx_restore = original, ctx_crClient = crClient r,
           ctx_volumeInfo = volumeInfo,
           ctx_restoredPVCList = getRestoredPVCFromRestoredResourceList restoredResourceList\<rparr>)))"
    by (rule execute_errs_wellformed)
  then have "errs_wellformed errs" by (simp add: assms(7))
  then have e: "0 < result_count errs \<longleftrightarrow> \<not> IsEmpty errs"
    by (simp add: errs_wellformed_count)
  define u where "u = (if 0 < result_count warnings \<or> 0 < result_count errs
              then updateResults backupStore restore' warnings errs else (None, []))"
  have u: "fst u = None" using assms(9) by (auto simp: u_def)
  have "filter is_PatchRestore (snd (Reconcile r req)) =
     [PatchRestore original
        (restore'\<lparr>Phase := (if Phase original = RestorePhaseFinalizingPartiallyFailed
                                \<or> \<not> IsEmpty errs
                             then RestorePhasePartiallyFailed else RestorePhaseCompleted),
                   CompletionTimestamp := Some (clock_Now r)\<rparr>)]"
    by (simp add: reconcile_with_store [OF assms(1-4)]
        finalize_traces(1) [OF assms(5-8) u_def refl] u is_PatchRestore_def)
  then show ?thesis by (simp add: assms(8) e)
qed

theorem finalization_counts_and_phase_witness:
  "filter is_PatchRestore (snd (Reconcile ex_env ex_request)) =
     [PatchRestore ex_restore
        (ex_restore\<lparr>Errors := 2, Phase := RestorePhasePartiallyFailed,
                    CompletionTimestamp := Some 1000\<rparr>)]"
proof -
  have u: "\<And>restore. fst (updateResults ex_store restore empty_Result ex_errs) = None"
    by (simp add: updateResults_def ex_store_def Let_def)
  from finalization_counts_and_phase [OF ex_loads ex_execute [unfolded ex_ctx_def] refl disjI2 [OF u]]
  show ?thesis
    by (simp add: ex_errs_def result_count_def empty_Result_def ex_restore_def ex_env_def)
qed

section \<open>The write of the results\<close>

text \<open>
  Claim C7, as stated, fails in two places. A restore that enters in phase
  \<open>FinalizingPartiallyFailed\<close> with no eligible volume ends \<open>PartiallyFailed\<close>, not
  \<open>Completed\<close>. And with one error produced, when the stored results cannot be read, no
  write is performed.
\<close>

theorem result_write_counterexample:
  "Reconcile ex_env_no_volumes ex_request =
     (None,
      [RegisterRestorePartialFailure ''daily'',
       PatchRestore (ex_restore\<lparr>Phase := RestorePhaseFinalizingPartiallyFailed\<rparr>)
         (ex_restore\<lparr>Phase := RestorePhasePartiallyFailed, CompletionTimestamp := Some 1000\<rparr>),
       CleanupClients])
   \<and> result_count (snd (fst (execute ex_ctx))) = 1
   \<and> Reconcile ex_env_read_fails ex_request =
     (Some (Failure ''error updating results: error getting restore results: store unavailable''),
      [WorkerStarted 0 ex_volume ''ns2'', CleanupClients])"
  by (simp add: ex_defs prog_defs ex_ctx_def)

text \<open>
  Claim C7, amended. For a reconcile call that finds the restore in a finalizing phase and
  whose loads all succeed: a write of results is issued exactly when the pass produced a
  warning or an error and the read of the results stored earlier succeeds; it is the only
  one, and it writes, under \<open>warnings\<close> and \<open>errors\<close>, the stored results merged with the new
  ones. When no volume satisfies the selection predicate, no write is issued and the one
  patch of the restore sets \<open>Completed\<close> for a restore that entered in \<open>Finalizing\<close> and
  \<open>PartiallyFailed\<close> for one that entered in \<open>FinalizingPartiallyFailed\<close>, with the counts
  unchanged.
\<close>

theorem result_write:
  assumes "Get r req = Inr original"
    and "Phase original = RestorePhaseFinalizing
         \<or> Phase original = RestorePhaseFinalizingPartiallyFailed"
    and "fetchBackupInfoInternal r (namespace r) (BackupName original) = Inr location"
    and "backupStoreGetter r location = Inr backupStore"
    and "GetBackupVolumeInfos backupStore (BackupName original) = Inr volumeInfo"
    and "GetRestoredResourceList backupStore (Name original) = Inr restoredResourceList"
    and "ctx = \<lparr>ctx_restore = original, ctx_crClient = crClient r, ctx_volumeInfo = volumeInfo,
           ctx_restoredPVCList = getRestoredPVCFromRestoredResourceList restoredResourceList\<rparr>"
    and "execute ctx = ((warnings, errs), fx)"
    and "restore' = original\<lparr>Warnings := Warnings original + of_nat (result_count warnings),
           Errors := Errors original + of_nat (result_count errs),
           Phase := (if \<not> IsEmpty errs then RestorePhaseFinalizingPartiallyFailed
                     else Phase original)\<rparr>"
  shows "filter is_PutResults (snd (Reconcile r req)) =
           (if 0 < result_count warnings + result_count errs then
              (case GetRestoreResults backupStore (Name original) of
                 Inl err \<Rightarrow> []
               | Inr originResults \<Rightarrow>
                   [PutResults restore'
                      [(''warnings'', Merge (lookup_Result originResults ''warnings'') warnings),
                       (''errors'', Merge (lookup_Result originResults ''errors'') errs)]])
            else [])
       \<and> ((\<forall>v\<in>set volumeInfo. \<not> selection_predicate ctx v) \<longrightarrow>
            filter is_PutResults (snd (Reconcile r req)) = []
            \<and> filter is_PatchRestore (snd (Reconcile r req)) =
                [PatchRestore original
                   (original\<lparr>Phase := (if Phase original = RestorePhaseFinalizingPartiallyFailed
                                          then RestorePhasePartiallyFailed
                                          else RestorePhaseCompleted),
                             CompletionTimestamp := Some (clock_Now r)\<rparr>)])"
proof -
  define u where "u = (if 0 < result_count warnings \<or> 0 < result_count errs
              then updateResults backupStore restore' warnings errs else (None, []))"
  note ex = assms(8) [unfolded assms(7)]
  have n: "Name restore' = Name original" by (simp add: assms(9))
  have puts: "filter is_PutResults (snd (Reconcile r req)) = snd u"
    by (simp add: reconcile_with_store [OF assms(1-4)]
        finalize_traces(2) [OF assms(5,6) ex assms(9) u_def refl] is_PutResults_def)
  have first: "filter is_PutResults (snd (Reconcile r req)) =
           (if 0 < result_count warnings + result_count errs then
              (case GetRestoreResults backupStore (Name original) of
                 Inl err \<Rightarrow> []
               | Inr originResults \<Rightarrow>
                   [PutResults restore'
                      [(''warnings'', Merge (lookup_Result originResults ''warnings'') warnings),
                       (''errors'', Merge (lookup_Result originResults ''errors'') errs)]])
            else [])"
    unfolding puts by (auto simp: u_def updateResults_puts n)
  have second: "filter is_PutResults (snd (Reconcile r req)) = []
            \<and> filter is_PatchRestore (snd (Reconcile r req)) =
                [PatchRestore original
                   (original\<lparr>Phase := (if Phase original = RestorePhaseFinalizingPartiallyFailed
                                          then RestorePhasePartiallyFailed
                                          else RestorePhaseCompleted),
                             CompletionTimestamp := Some (clock_Now r)\<rparr>)]"
    if none: "\<forall>v\<in>set volumeInfo. \<not> selection_predicate ctx v"
  proof -
    from none have "\<forall>v\<in>set (ctx_volumeInfo ctx). \<not> selection_predicate ctx v"
      by (simp add: assms(7))
    from execute_none_selected [OF this] assms(8)
    have we: "warnings = empty_Result" "errs = empty_Result" by simp_all
    have z: "result_count warnings = 0" "result_count errs = 0" "IsEmpty errs"
      by (simp_all add: we result_count_def IsEmpty_def empty_Result_def)
    have u: "u = (None, [])" by (simp add: u_def z)
    have "filter is_PatchRestore (snd (Reconcile r req)) =
       [PatchRestore original
          (restore'\<lparr>Phase := (if Phase original = RestorePhaseFinalizingPartiallyFailed
                                  \<or> \<not> IsEmpty errs
                               then RestorePhasePartiallyFailed else RestorePhaseCompleted),
                     CompletionTimestamp := Some (clock_Now r)\<rparr>)]"
      by (simp add: reconcile_with_store [OF assms(1-4)]
          finalize_traces(1) [OF assms(5,6) ex assms(9) u_def refl] u is_PatchRestore_def)
    then show ?thesis by (simp add: puts u assms(9) z)
  qed
  from first second show ?thesis by blast
qed

theorem result_write_witness:
  "filter is_PutResults (snd (Reconcile ex_env ex_request)) =
     [PutResults (ex_restore\<lparr>Phase := RestorePhaseFinalizingPartiallyFailed, Errors := 2\<rparr>) ex_merged]
   \<and> filter is_PutResults (snd (Reconcile ex_env_no_volumes ex_request)) = []
   \<and> filter is_PatchRestore (snd (Reconcile ex_env_no_volumes ex_request)) =
       [PatchRestore (ex_restore\<lparr>Phase := RestorePhaseFinalizingPartiallyFailed\<rparr>)
          (ex_restore\<lparr>Phase := RestorePhasePartiallyFailed, CompletionTimestamp := Some 1000\<rparr>)]"
proof -
  from result_write [OF ex_loads ex_ctx_def ex_execute refl]
  have a: "filter is_PutResults (snd (Reconcile ex_env ex_request)) =
     [PutResults (ex_restore\<lparr>Phase := RestorePhaseFinalizingPartiallyFailed, Errors := 2\<rparr>) ex_merged]"
    by (simp add: ex_errs_def result_count_def empty_Result_def ex_restore_def ex_store_def
        ex_merged_def lookup_Result_def Merge_def IsEmpty_def)
  let ?o = "ex_restore\<lparr>Phase := RestorePhaseFinalizingPartiallyFailed\<rparr>"
  let ?s = "ex_store\<lparr>GetBackupVolumeInfos := (\<lambda>backupName. Inr [])\<rparr>"
  let ?c = "\<lparr>ctx_restore = ?o, ctx_crClient = crClient ex_env_no_volumes, ctx_volumeInfo = [],
      ctx_restoredPVCList = getRestoredPVCFromRestoredResourceList ex_inventory\<rparr>"
  have l: "Get ex_env_no_volumes ex_request = Inr ?o"
    "Phase ?o = RestorePhaseFinalizing \<or> Phase ?o = RestorePhaseFinalizingPartiallyFailed"
    "fetchBackupInfoInternal ex_env_no_volumes (namespace ex_env_no_volumes) (BackupName ?o) = Inr ''default''"
    "backupStoreGetter ex_env_no_volumes ''default'' = Inr ?s"
    "GetBackupVolumeInfos ?s (BackupName ?o) = Inr []"
    "GetRestoredResourceList ?s (Name ?o) = Inr ex_inventory"
    by (simp_all add: ex_env_no_volumes_def ex_env_def ex_restore_def ex_store_def)
  have e: "execute ?c = ((empty_Result, empty_Result), [])"
    by (simp add: execute_def patchDynamicPVWithVolumeInfo_def Merge_def empty_Result_def)
  have ck: "clock_Now ex_env_no_volumes = 1000"
    by (simp add: ex_env_no_volumes_def ex_env_def)
  from result_write [OF l refl e refl]
  have b: "filter is_PutResults (snd (Reconcile ex_env_no_volumes ex_request)) = []
   \<and> filter is_PatchRestore (snd (Reconcile ex_env_no_volumes ex_request)) =
       [PatchRestore ?o
          (ex_restore\<lparr>Phase := RestorePhasePartiallyFailed, CompletionTimestamp := Some 1000\<rparr>)]"
    by (simp add: ck result_count_def empty_Result_def IsEmpty_def)
  from a b show ?thesis by blast
qed

section \<open>Warnings\<close>

lemma backup_fetch_trace:
  assumes "Get r req = Inr original"
    and "Phase original = RestorePhaseFinalizing
         \<or> Phase original = RestorePhaseFinalizingPartiallyFailed"
    and "fetchBackupInfoInternal r (namespace r) (BackupName original) = Inl err"
  shows "snd (Reconcile r req) =
     (if IsNotFound err then
         [RegisterRestorePartialFailure (ScheduleName original),
          PatchRestore original
            (original\<lparr>Phase := RestorePhasePartiallyFailed,
                      CompletionTimestamp := Some (clock_Now r)\<rparr>)]
      else [])"
  using assms by (auto simp: Reconcile_def finishProcessing_def Let_def split: option.splits)

lemma reconcile_patch_keeps_warnings:
  assumes "PatchRestore original updated \<in> set (snd (Reconcile r req))"
  shows "Warnings updated = Warnings original"
proof (cases "Get r req")
  case (Inl err)
  with assms show ?thesis by (simp add: Reconcile_def split: if_splits)
next
  case (Inr orig)
  note g = Inr
  show ?thesis
  proof (cases "Phase orig = RestorePhaseFinalizing \<or> Phase orig = RestorePhaseFinalizingPartiallyFailed")
    case False
    with assms g show ?thesis by (simp add: Reconcile_def)
  next
    case True
    note ph = True
    show ?thesis
    proof (cases "fetchBackupInfoInternal r (namespace r) (BackupName orig)")
      case (Inl err)
      from assms show ?thesis
        unfolding backup_fetch_trace [OF g ph Inl]
        by (auto split: if_splits)
    next
      case (Inr location)
      note loc = Inr
      show ?thesis
      proof (cases "backupStoreGetter r location")
        case (Inl err)
        with assms g ph loc show ?thesis by (auto simp: Reconcile_def Let_def)
      next
        case (Inr backupStore)
        note rs = reconcile_with_store [OF g ph loc Inr]
        from assms have m: "PatchRestore original updated \<in> set (filter is_PatchRestore (snd (finalize r backupStore orig orig)))"
          by (simp add: rs is_PatchRestore_def)
        show ?thesis
        proof (cases "GetBackupVolumeInfos backupStore (BackupName orig)")
          case (Inl err)
          with m show ?thesis by (simp add: finalize_def)
        next
          case (Inr volumeInfo)
          note vi = Inr
          show ?thesis
          proof (cases "GetRestoredResourceList backupStore (Name orig)")
            case (Inl err)
            with m vi show ?thesis by (simp add: finalize_def)
          next
            case (Inr restoredResourceList)
            let ?ctx = "\<lparr>ctx_restore = orig, ctx_crClient = crClient r, ctx_volumeInfo = volumeInfo,
               ctx_restoredPVCList = getRestoredPVCFromRestoredResourceList restoredResourceList\<rparr>"
            obtain warnings errs fx where ex: "execute ?ctx = ((warnings, errs), fx)"
              by (metis prod.exhaust)
            from execute_warnings [of ?ctx] ex have w: "result_count warnings = 0"
              by (simp add: result_count_empty)
            from m show ?thesis
              unfolding finalize_traces(1) [OF vi Inr ex refl refl refl]
              by (simp add: w split: if_splits)
          qed
        qed
      qed
    qed
  qed
qed

lemma reconcile_entry_origin:
  assumes "e \<in> set (snd (Reconcile r req))" and "is_PatchRestore e \<or> is_PutResults e"
  shows "\<exists>original. Get r req = Inr original
     \<and> (Phase original = RestorePhaseFinalizing
          \<or> Phase original = RestorePhaseFinalizingPartiallyFailed)
     \<and> ((\<exists>err. fetchBackupInfoInternal r (namespace r) (BackupName original) = Inl err
             \<and> IsNotFound err
             \<and> e = PatchRestore original
                   (original\<lparr>Phase := RestorePhasePartiallyFailed,
                             CompletionTimestamp := Some (clock_Now r)\<rparr>))
         \<or> (\<exists>location backupStore volumeInfo restoredResourceList.
               fetchBackupInfoInternal r (namespace r) (BackupName original) = Inr location
               \<and> backupStoreGetter r location = Inr backupStore
               \<and> GetBackupVolumeInfos backupStore (BackupName original) = Inr volumeInfo
               \<and> GetRestoredResourceList backupStore (Name original) = Inr restoredResourceList
               \<and> e \<in> set (snd (finalize r backupStore original original))))"
proof (cases "Get r req")
  case (Inl err)
  with assms(1) show ?thesis by (simp add: Reconcile_def split: if_splits)
next
  case (Inr original)
  note g = Inr
  show ?thesis
  proof (cases "Phase original = RestorePhaseFinalizing
      \<or> Phase original = RestorePhaseFinalizingPartiallyFailed")
    case False
    with assms(1) g show ?thesis by (simp add: Reconcile_def)
  next
    case True
    note ph = True
    show ?thesis
    proof (cases "fetchBackupInfoInternal r (namespace r) (BackupName original)")
      case (Inl err)
      from assms have "IsNotFound err \<and> e = PatchRestore original
                   (original\<lparr>Phase := RestorePhasePartiallyFailed,
                             CompletionTimestamp := Some (clock_Now r)\<rparr>)"
        unfolding backup_fetch_trace [OF g ph Inl]
        by (auto simp: is_PatchRestore_def is_PutResults_def split: if_splits)
      with g ph Inl show ?thesis by blast
    next
      case (Inr location)
      note loc = Inr
      show ?thesis
      proof (cases "backupStoreGetter r location")
        case (Inl err)
        with assms g ph loc show ?thesis
          by (auto simp: Reconcile_def Let_def is_PatchRestore_def is_PutResults_def)
      next
        case (Inr backupStore)
        note st = Inr
        note rs = reconcile_with_store [OF g ph loc st]
        from assms have m: "e \<in> set (snd (finalize r backupStore original original))"
          by (auto simp: rs is_PatchRestore_def is_PutResults_def)
        show ?thesis
        proof (cases "GetBackupVolumeInfos backupStore (BackupName original)")
          case (Inl err)
          with m show ?thesis by (simp add: finalize_def)
        next
          case (Inr volumeInfo)
          note vi = Inr
          show ?thesis
          proof (cases "GetRestoredResourceList backupStore (Name original)")
            case (Inl err)
            with m vi show ?thesis by (simp add: finalize_def)
          next
            case (Inr restoredResourceList)
            with g ph loc st vi m show ?thesis by blast
          qed
        qed
      qed
    qed
  qed
qed

lemma finalizerCtx_loaded:
  assumes "Get r req = Inr original"
    and "Phase original = RestorePhaseFinalizing
         \<or> Phase original = RestorePhaseFinalizingPartiallyFailed"
    and "fetchBackupInfoInternal r (namespace r) (BackupName original) = Inr location"
    and "backupStoreGetter r location = Inr backupStore"
    and "GetBackupVolumeInfos backupStore (BackupName original) = Inr volumeInfo"
    and "GetRestoredResourceList backupStore (Name original) = Inr restoredResourceList"
  shows "finalizerCtx r req =
     Some \<lparr>ctx_restore = original, ctx_crClient = crClient r, ctx_volumeInfo = volumeInfo,
           ctx_restoredPVCList = getRestoredPVCFromRestoredResourceList restoredResourceList\<rparr>"
  using assms by (auto simp: finalizerCtx_def)

lemma reconcile_put_needs_errors:
  assumes "PutResults restore m \<in> set (snd (Reconcile r req))"
  shows "case finalizerCtx r req of
           None \<Rightarrow> False
         | Some c \<Rightarrow> 0 < result_count (snd (fst (execute c)))"
proof -
  from reconcile_entry_origin [OF assms] obtain original location backupStore volumeInfo
      restoredResourceList where
    g: "Get r req = Inr original"
    and ph: "Phase original = RestorePhaseFinalizing
         \<or> Phase original = RestorePhaseFinalizingPartiallyFailed"
    and loc: "fetchBackupInfoInternal r (namespace r) (BackupName original) = Inr location"
    and st: "backupStoreGetter r location = Inr backupStore"
    and vi: "GetBackupVolumeInfos backupStore (BackupName original) = Inr volumeInfo"
    and rl: "GetRestoredResourceList backupStore (Name original) = Inr restoredResourceList"
    and m: "PutResults restore m \<in> set (snd (finalize r backupStore original original))"
    by (auto simp: is_PutResults_def)
  let ?c = "\<lparr>ctx_restore = original, ctx_crClient = crClient r, ctx_volumeInfo = volumeInfo,
           ctx_restoredPVCList = getRestoredPVCFromRestoredResourceList restoredResourceList\<rparr>"
  obtain warnings errs fx where ex: "execute ?c = ((warnings, errs), fx)"
    by (metis prod.exhaust)
  from execute_warnings [of ?c] ex have w: "result_count warnings = 0"
    by (simp add: result_count_empty)
  from m have "PutResults restore m
      \<in> set (filter is_PutResults (snd (finalize r backupStore original original)))"
    by (simp add: is_PutResults_def)
  then have "0 < result_count errs"
    unfolding finalize_traces(2) [OF vi rl ex refl refl refl]
    by (simp add: w split: if_splits)
  then show ?thesis
    by (simp add: finalizerCtx_loaded [OF g ph loc st vi rl] ex)
qed

lemma reconcile_demotion_cause:
  assumes "PatchRestore original updated \<in> set (snd (Reconcile r req))"
    and "Phase original = RestorePhaseFinalizing"
    and "Phase updated = RestorePhasePartiallyFailed"
  shows "case fetchBackupInfoInternal r (namespace r) (BackupName original) of
           Inl err \<Rightarrow> IsNotFound err
         | Inr location \<Rightarrow>
             (case finalizerCtx r req of
                None \<Rightarrow> False
              | Some c \<Rightarrow> 0 < result_count (snd (fst (execute c))))"
proof -
  have p: "is_PatchRestore (PatchRestore original updated) \<or> is_PutResults (PatchRestore original updated)"
    by (simp add: is_PatchRestore_def)
  from reconcile_entry_origin [OF assms(1) p] obtain orig where
    g: "Get r req = Inr orig"
    and ph: "Phase orig = RestorePhaseFinalizing
         \<or> Phase orig = RestorePhaseFinalizingPartiallyFailed"
    and d: "(\<exists>err. fetchBackupInfoInternal r (namespace r) (BackupName orig) = Inl err
             \<and> IsNotFound err
             \<and> PatchRestore original updated = PatchRestore orig
                   (orig\<lparr>Phase := RestorePhasePartiallyFailed,
                             CompletionTimestamp := Some (clock_Now r)\<rparr>))
         \<or> (\<exists>location backupStore volumeInfo restoredResourceList.
               fetchBackupInfoInternal r (namespace r) (BackupName orig) = Inr location
               \<and> backupStoreGetter r location = Inr backupStore
               \<and> GetBackupVolumeInfos backupStore (BackupName orig) = Inr volumeInfo
               \<and> GetRestoredResourceList backupStore (Name orig) = Inr restoredResourceList
               \<and> PatchRestore original updated
                   \<in> set (snd (finalize r backupStore orig orig)))"
    by blast
  from d show ?thesis
  proof
    assume "\<exists>err. fetchBackupInfoInternal r (namespace r) (BackupName orig) = Inl err
             \<and> IsNotFound err
             \<and> PatchRestore original updated = PatchRestore orig
                   (orig\<lparr>Phase := RestorePhasePartiallyFailed,
                             CompletionTimestamp := Some (clock_Now r)\<rparr>)"
    then show ?thesis by auto
  next
    assume "\<exists>location backupStore volumeInfo restoredResourceList.
               fetchBackupInfoInternal r (namespace r) (BackupName orig) = Inr location
               \<and> backupStoreGetter r location = Inr backupStore
               \<and> GetBackupVolumeInfos backupStore (BackupName orig) = Inr volumeInfo
               \<and> GetRestoredResourceList backupStore (Name orig) = Inr restoredResourceList
               \<and> PatchRestore original updated
                   \<in> set (snd (finalize r backupStore orig orig))"
    then obtain location backupStore volumeInfo restoredResourceList where
      loc: "fetchBackupInfoInternal r (namespace r) (BackupName orig) = Inr location"
      and st: "backupStoreGetter r location = Inr backupStore"
      and vi: "GetBackupVolumeInfos backupStore (BackupName orig) = Inr volumeInfo"
      and rl: "GetRestoredResourceList backupStore (Name orig) = Inr restoredResourceList"
      and m: "PatchRestore original updated \<in> set (snd (finalize r backupStore orig orig))"
      by blast
    let ?c = "\<lparr>ctx_restore = orig, ctx_crClient = crClient r, ctx_volumeInfo = volumeInfo,
           ctx_restoredPVCList = getRestoredPVCFromRestoredResourceList restoredResourceList\<rparr>"
    obtain warnings errs fx where ex: "execute ?c = ((warnings, errs), fx)"
      by (metis prod.exhaust)
    from execute_errs_wellformed [of ?c] ex have wf: "errs_wellformed errs" by simp
    from m have "PatchRestore original updated
        \<in> set (filter is_PatchRestore (snd (finalize r backupStore orig orig)))"
      by (simp add: is_PatchRestore_def)
    then have o: "original = orig" and "\<not> IsEmpty errs"
      unfolding finalize_traces(1) [OF vi rl ex refl refl refl]
      using assms(2,3) by (auto split: if_splits)
    with wf have "0 < result_count errs" by (simp add: errs_wellformed_count)
    then show ?thesis
      by (simp add: o loc finalizerCtx_loaded [OF g ph loc st vi rl] ex)
  qed
qed

text \<open>
  Claim C10, as stated, lets only errors of the finalization tasks demote a restore to
  \<open>PartiallyFailed\<close>. A restore that enters in phase \<open>Finalizing\<close> and whose backup is not
  found is patched to \<open>PartiallyFailed\<close> although no task ran and no error entry was
  produced.
\<close>

theorem backup_missing_demotes_counterexample:
  "Phase ex_restore = RestorePhaseFinalizing
   \<and> Reconcile ex_env_backup_missing ex_request =
     (None,
      [RegisterRestorePartialFailure ''daily'',
       PatchRestore ex_restore
         (ex_restore\<lparr>Phase := RestorePhasePartiallyFailed, CompletionTimestamp := Some 1000\<rparr>)])"
  by (simp add: ex_env_backup_missing_def ex_env_def Reconcile_def finishProcessing_def
      ex_restore_def)

text \<open>
  Claim C10, amended. On every input the task executor returns the empty warnings result,
  of count 0, and no patch of the restore that \<open>Reconcile\<close> submits, on any path, changes
  \<open>Warnings\<close>. On every path, a write of results is only issued after the tasks ran and
  produced at least one error; and a restore that entered in \<open>Finalizing\<close> is only patched to
  \<open>PartiallyFailed\<close> when its backup was not found or the tasks ran and produced at least one
  error. Warnings cause neither.
\<close>

theorem warnings_always_empty:
  "fst (fst (execute ctx)) = empty_Result
   \<and> result_count (fst (fst (execute ctx))) = 0
   \<and> (PatchRestore original updated \<in> set (snd (Reconcile r req))
        \<longrightarrow> Warnings updated = Warnings original)
   \<and> (PutResults restore m \<in> set (snd (Reconcile r req))
        \<longrightarrow> (case finalizerCtx r req of
               None \<Rightarrow> False
             | Some c \<Rightarrow> 0 < result_count (snd (fst (execute c)))))
   \<and> (PatchRestore original updated \<in> set (snd (Reconcile r req))
        \<and> Phase original = RestorePhaseFinalizing
        \<and> Phase updated = RestorePhasePartiallyFailed
        \<longrightarrow> (case fetchBackupInfoInternal r (namespace r) (BackupName original) of
               Inl err \<Rightarrow> IsNotFound err
             | Inr location \<Rightarrow>
                 (case finalizerCtx r req of
                    None \<Rightarrow> False
                  | Some c \<Rightarrow> 0 < result_count (snd (fst (execute c))))))"
proof -
  have a: "fst (fst (execute ctx)) = empty_Result" by (rule execute_warnings)
  have b: "result_count (fst (fst (execute ctx))) = 0" by (simp add: a result_count_empty)
  from a b reconcile_patch_keeps_warnings reconcile_put_needs_errors reconcile_demotion_cause
  show ?thesis by blast
qed

theorem warnings_always_empty_witness:
  "finalizerCtx ex_env ex_request = Some ex_ctx
   \<and> PutResults (ex_restore\<lparr>Phase := RestorePhaseFinalizingPartiallyFailed, Errors := 2\<rparr>) ex_merged
       \<in> set (snd (Reconcile ex_env ex_request))
   \<and> PatchRestore ex_restore
        (ex_restore\<lparr>Errors := 2, Phase := RestorePhasePartiallyFailed,
                    CompletionTimestamp := Some 1000\<rparr>)
       \<in> set (snd (Reconcile ex_env ex_request))
   \<and> Phase ex_restore = RestorePhaseFinalizing
   \<and> Warnings (ex_restore\<lparr>Errors := 2, Phase := RestorePhasePartiallyFailed,
                            CompletionTimestamp := Some 1000\<rparr>) = Warnings ex_restore
   \<and> 0 < result_count (snd (fst (execute ex_ctx)))
   \<and> result_count (fst (fst (execute ex_ctx))) = 0"
proof -
  have c: "finalizerCtx ex_env ex_request = Some ex_ctx"
    by (simp add: finalizerCtx_loaded [OF ex_loads] ex_ctx_def)
  have p: "PutResults (ex_restore\<lparr>Phase := RestorePhaseFinalizingPartiallyFailed, Errors := 2\<rparr>) ex_merged
     \<in> set (snd (Reconcile ex_env ex_request))"
    by (simp add: ex_defs prog_defs ex_merged_def)
  have q: "PatchRestore ex_restore
        (ex_restore\<lparr>Errors := 2, Phase := RestorePhasePartiallyFailed,
                    CompletionTimestamp := Some 1000\<rparr>)
     \<in> set (snd (Reconcile ex_env ex_request))"
    by (simp add: ex_defs prog_defs)
  have f: "Phase ex_restore = RestorePhaseFinalizing"
    "Phase (ex_restore\<lparr>Errors := 2, Phase := RestorePhasePartiallyFailed,
                       CompletionTimestamp := Some 1000\<rparr>) = RestorePhasePartiallyFailed"
    by (simp_all add: ex_restore_def)
  from warnings_always_empty [of ex_ctx ex_restore
      "ex_restore\<lparr>Errors := 2, Phase := RestorePhasePartiallyFailed,
                  CompletionTimestamp := Some 1000\<rparr>"
      ex_env ex_request
      "ex_restore\<lparr>Phase := RestorePhaseFinalizingPartiallyFailed, Errors := 2\<rparr>" ex_merged]
    c p q f ex_loads(3)
  show ?thesis by (simp add: result_count_empty)
qed

end
